theory Spec2Isabelle
  imports Main
begin

section \<open>The tiling engine of \<open>src/engine/engine.ts\<close>\<close>

text \<open>
  The class \<open>TilingEngine\<close> owns an array of \<open>Window\<close> objects and mutates the objects
  in place. Objects are compared by reference (\<open>===\<close>, \<open>indexOf\<close>), so a window is
  modelled by the identity of its object and the fields of the objects live in a heap,
  a function from identities to records.

  Steps and array indices are integers below \<open>2 ^ 53\<close>, on which the arithmetic of
  JavaScript numbers is exact: they are modelled as \<open>int\<close>. Screen coordinates and gaps
  are numbers of any size, and the engine adds and subtracts them in floating point.
  Their type is a parameter \<open>'n\<close> of the model, with an addition and a subtraction of
  which no law is assumed, so that what is proved of the engine holds whatever these
  two operations compute. The type \<open>number\<close> below gives them their IEEE 754 meaning on
  the numbers without a fractional part; the concrete runs use it.
\<close>

subsection \<open>Data\<close>

type_synonym wid = nat  \<comment> \<open>the identity of a \<open>Window\<close> object\<close>
type_synonym ctx = nat  \<comment> \<open>the identity of an \<open>IDriverContext\<close>\<close>

text \<open>
  Modelled from the spec: the class \<open>Rect\<close> is declared outside the source file. It is
  "an immutable value (x, y, width, height)", built by \<open>new Rect(x, y, width, height)\<close>.
\<close>

datatype 'n Rect = Rect (rect_x: 'n) (rect_y: 'n) (rect_width: 'n) (rect_height: 'n)

text \<open>
  Modelled from the spec: the enumeration \<open>WindowState\<close> is declared outside the source
  file. These are the members the engine names.
\<close>

datatype WindowState = Tile | FreeTile | Float

text \<open>
  Modelled from the spec: the class \<open>Window\<close> is declared outside the source file.
  These are the fields and the one query of it that the engine reads or writes. The
  source's field \<open>context\<close> is \<open>wcontext\<close> here; \<open>visible\<close> is the method
  \<open>win.visible(ctx)\<close>, whose answers are taken as given for each window and which
  the engine has no means to change.
\<close>

record 'n Window =
  state :: WindowState
  noBorder :: bool
  geometry :: "'n Rect"
  actualGeometry :: "'n Rect"
  wcontext :: ctx
  shouldIgnore :: bool
  shouldFloat :: bool
  visible :: "ctx \<Rightarrow> bool"

text \<open>
  Modelled from the spec: the global \<open>CONFIG\<close> is declared outside the source file. These
  are the entries the engine reads: four gap insets and two toggles.
\<close>

record 'n CONFIG =
  screenGapLeft :: 'n
  screenGapTop :: 'n
  screenGapRight :: 'n
  screenGapBottom :: 'n
  maximizeSoleTile :: bool
  noTileBorder :: bool

text \<open>
  Modelled from the spec: the interface \<open>IDriver\<close> is declared outside the source file.
  The record holds the answers of its queries; its one command, \<open>setCurrentWindow\<close>, is
  recorded as a call.
\<close>

record 'n Driver =
  getWorkingArea :: "ctx \<Rightarrow> 'n Rect"
  getCurrentContext :: ctx
  getCurrentWindow :: "wid option"

text \<open>
  The calls the engine makes on its collaborators, in the order it makes them:
  \<open>window.commit()\<close>, \<open>layout.apply(tiles, workingArea, fullArea)\<close> and
  \<open>driver.setCurrentWindow(window)\<close>.
\<close>

datatype 'n event =
  Commit wid
| Apply "wid list" "'n Rect" "'n Rect"
| SetCurrentWindow wid

text \<open>
  The engine: the array \<open>this.windows\<close>, the window objects, the calls made so far and
  the callbacks handed to \<open>KWinSetTimeout\<close> that have not run yet (each with the window
  its closure captured and its delay).
\<close>

record 'n Engine =
  windows :: "wid list"
  heap :: "wid \<Rightarrow> 'n Window"
  trace :: "'n event list"
  timers :: "(wid \<times> nat) list"

text \<open>
  Modelled from the spec: the \<open>Layout\<close> interface is not part of the source file. Its
  mandatory operation \<open>apply(tiles, workingArea, fullArea)\<close> "assigns geometries to all
  tiles in place". A layout is therefore the function that, from the tiles, the two
  areas and the window objects as they are at the call, gives each tile its geometry.
\<close>

type_synonym 'n Layout =
  "wid list \<Rightarrow> 'n Rect \<Rightarrow> 'n Rect \<Rightarrow> (wid \<Rightarrow> 'n Window) \<Rightarrow> wid \<Rightarrow> 'n Rect"

text \<open>\<open>this.layouts.getCurrentLayout(ctx)\<close>: the registry gives each context its layout.\<close>

type_synonym 'n LayoutStore = "ctx \<Rightarrow> 'n Layout"

subsection \<open>JavaScript primitives\<close>

text \<open>
  \<open>Array.prototype.indexOf\<close>: the first index holding the element, \<open>-1\<close> when there is
  none.
\<close>

fun indexOf :: "'a list \<Rightarrow> 'a \<Rightarrow> int" where
  "indexOf [] w = - 1"
| "indexOf (v # vs) w =
     (if v = w then 0
      else (let i = indexOf vs w in if i < 0 then - 1 else i + 1))"

text \<open>\<open>xs.splice(idx, 1)\<close> for an index inside the array.\<close>

definition splice1 :: "'a list \<Rightarrow> nat \<Rightarrow> 'a list" where
  "splice1 xs i = take i xs @ drop (Suc i) xs"

text \<open>
  \<open>xs[i] = v\<close>. Inside the array the element is replaced. A negative index names a
  property \<open>"-1"\<close> of the array object, which is no element: the sequence of elements
  is unchanged. The engine only writes at results of \<open>indexOf\<close>, which are below the
  length.
\<close>

definition array_set :: "'a list \<Rightarrow> int \<Rightarrow> 'a \<Rightarrow> 'a list" where
  "array_set xs i v = (if 0 \<le> i \<and> i < int (length xs) then xs[nat i := v] else xs)"

text \<open>
  The remainder operator \<open>%\<close> truncates: the result has the sign of the dividend. The
  divisor is a positive length wherever the engine uses it.
\<close>

definition js_rem :: "int \<Rightarrow> int \<Rightarrow> int" where
  "js_rem a b = sgn a * (\<bar>a\<bar> mod \<bar>b\<bar>)"

text \<open>\<open>xs.forEach(f)\<close> where \<open>f\<close> changes the engine.\<close>

definition forEach :: "'a list \<Rightarrow> ('a \<Rightarrow> 's \<Rightarrow> 's) \<Rightarrow> 's \<Rightarrow> 's" where
  "forEach xs f s = fold f xs s"

subsection \<open>Collaborator calls\<close>

definition set_window ::
  "wid \<Rightarrow> ('n Window \<Rightarrow> 'n Window) \<Rightarrow> 'n Engine \<Rightarrow> 'n Engine" where
  "set_window w f e = e\<lparr>heap := (heap e)(w := f (heap e w))\<rparr>"

definition emit :: "'n event \<Rightarrow> 'n Engine \<Rightarrow> 'n Engine" where
  "emit ev e = e\<lparr>trace := trace e @ [ev]\<rparr>"

text \<open>
  Modelled from the spec: \<open>Window.commit\<close> is not part of the source file; it
  "flushes pending changes to the host". The call is recorded.
\<close>

definition commit :: "wid \<Rightarrow> 'n Engine \<Rightarrow> 'n Engine" where
  "commit w e = emit (Commit w) e"

text \<open>
  Modelled from the spec: \<open>layout.apply(tiles, workingArea, fullArea)\<close> is recorded and
  every tile receives the geometry the layout gives it.
\<close>

definition layout_apply ::
  "'n Layout \<Rightarrow> wid list \<Rightarrow> 'n Rect \<Rightarrow> 'n Rect \<Rightarrow> 'n Engine \<Rightarrow> 'n Engine" where
  "layout_apply layout tiles workingArea fullArea e =
     emit (Apply tiles workingArea fullArea)
       (e\<lparr>heap := (\<lambda>w. if w \<in> set tiles
                        then (heap e w)\<lparr>geometry := layout tiles workingArea fullArea (heap e) w\<rparr>
                        else heap e w)\<rparr>)"

subsection \<open>The engine's operations\<close>

text \<open>The body of the first \<open>forEach\<close> of \<open>arrangeScreen\<close>, on one window object.\<close>

definition reset_window :: "'n CONFIG \<Rightarrow> 'n Window \<Rightarrow> 'n Window" where
  "reset_window cfg win =
     (let win1 = (if state win = FreeTile then win\<lparr>state := Tile\<rparr> else win)
      in if state win1 = Tile then win1\<lparr>noBorder := noTileBorder cfg\<rparr> else win1)"

definition arrangeScreen ::
  "('n::{plus,minus}) CONFIG \<Rightarrow> 'n Driver \<Rightarrow> 'n LayoutStore \<Rightarrow> ctx \<Rightarrow> 'n Engine \<Rightarrow> 'n Engine" where
  "arrangeScreen cfg driver layouts c e =
     (let layout = layouts c;
          fullArea = getWorkingArea driver c;
          workingArea = Rect
            (rect_x fullArea + screenGapLeft cfg)
            (rect_y fullArea + screenGapTop cfg)
            (rect_width fullArea - (screenGapLeft cfg + screenGapRight cfg))
            (rect_height fullArea - (screenGapTop cfg + screenGapBottom cfg));
          visibles = filter (\<lambda>win. visible (heap e win) c) (windows e);
          tiles = filter (\<lambda>win. state (heap e win) = Tile \<or> state (heap e win) = FreeTile) visibles;
          e1 = forEach visibles (\<lambda>window. set_window window (reset_window cfg)) e;
          e2 = (if maximizeSoleTile cfg \<and> length tiles = 1
                then set_window (hd tiles) (\<lambda>win. win\<lparr>geometry := fullArea\<rparr>)
                       (set_window (hd tiles) (\<lambda>win. win\<lparr>noBorder := True\<rparr>) e1)
                else if length tiles > 0
                then layout_apply layout tiles workingArea fullArea e1
                else e1)
      in forEach visibles commit e2)"

text \<open>
  Modelled from the spec: \<open>Rect.equals\<close> is not part of the source file. The spec speaks
  of the observed geometry that "disagrees with" the target geometry: two rectangles
  are equal when their four components are.
\<close>

definition equals :: "'n Rect \<Rightarrow> 'n Rect \<Rightarrow> bool" where
  "equals a b \<longleftrightarrow>
     rect_x a = rect_x b \<and> rect_y a = rect_y b
     \<and> rect_width a = rect_width b \<and> rect_height a = rect_height b"

text \<open>
  \<open>enforceClientSize\<close>. The callback given to \<open>KWinSetTimeout\<close> is kept in \<open>timers\<close>
  with its delay; \<open>timer_callback\<close> is its body, run on the engine as it is when the
  timer fires.
\<close>

definition enforceClientSize :: "wid \<Rightarrow> 'n Engine \<Rightarrow> 'n Engine" where
  "enforceClientSize window e =
     (if state (heap e window) = Tile
         \<and> \<not> equals (actualGeometry (heap e window)) (geometry (heap e window))
      then e\<lparr>timers := timers e @ [(window, 10)]\<rparr>
      else e)"

definition timer_callback :: "wid \<Rightarrow> 'n Engine \<Rightarrow> 'n Engine" where
  "timer_callback window e =
     (if state (heap e window) = Tile then commit window e else e)"

definition manageClient :: "wid \<Rightarrow> 'n Engine \<Rightarrow> 'n Engine" where
  "manageClient window e =
     (if \<not> shouldIgnore (heap e window)
      then (let e1 = set_window window
                       (\<lambda>win. win\<lparr>state := (if shouldFloat win then Float else Tile)\<rparr>) e
            in e1\<lparr>windows := windows e1 @ [window]\<rparr>)
      else e)"

definition unmanageClient :: "wid \<Rightarrow> 'n Engine \<Rightarrow> 'n Engine" where
  "unmanageClient window e =
     (let idx = indexOf (windows e) window
      in if idx \<ge> 0 then e\<lparr>windows := splice1 (windows e) (nat idx)\<rparr> else e)"

definition moveFocus ::
  "'n Driver \<Rightarrow> int \<Rightarrow> 'n Engine \<Rightarrow> 'n Engine" where
  "moveFocus driver step e =
     (if step = 0 then e
      else
        let window = getCurrentWindow driver;
            c = (case window of Some w \<Rightarrow> wcontext (heap e w) | None \<Rightarrow> getCurrentContext driver);
            visibles = filter (\<lambda>win. visible (heap e win) c) (windows e)
        in if length visibles = 0 then e
           else
             let idx = (case window of Some w \<Rightarrow> indexOf visibles w | None \<Rightarrow> - 1)
             in if window = None \<or> idx < 0 then emit (SetCurrentWindow (hd visibles)) e
                else
                  let num = int (length visibles);
                      newIndex = js_rem (idx + js_rem step num + num) num
                  in emit (SetCurrentWindow (visibles ! nat newIndex)) e)"

definition moveTile ::
  "'n Driver \<Rightarrow> int \<Rightarrow> 'n Engine \<Rightarrow> 'n Engine" where
  "moveTile driver step e =
     (if step = 0 then e
      else case getCurrentWindow driver of
        None \<Rightarrow> e
      | Some srcWin \<Rightarrow>
          let c = wcontext (heap e srcWin);
              visibles = filter (\<lambda>win. visible (heap e win) c) (windows e)
          in if length visibles < 2 then e
             else
               let num = int (length visibles);
                   srcIdx = indexOf visibles srcWin;
                   destIdx = js_rem (srcIdx + js_rem step num + num) num
               in if srcIdx = destIdx then e
                  else
                    let destWin = visibles ! nat destIdx;
                        srcListIdx = indexOf (windows e) srcWin;
                        destListIdx = indexOf (windows e) destWin
                    in e\<lparr>windows :=
                          array_set (array_set (windows e) destListIdx srcWin) srcListIdx destWin\<rparr>)"

definition setMaster :: "wid \<Rightarrow> 'n Engine \<Rightarrow> 'n Engine" where
  "setMaster window e =
     (if (case windows e of [] \<Rightarrow> False | w0 # _ \<Rightarrow> w0 = window) then e
      else
        let idx = indexOf (windows e) window
        in if idx < 0 then e
           else e\<lparr>windows := window # splice1 (windows e) (nat idx)\<rparr>)"

subsection \<open>The parts of an arrangement pass\<close>

text \<open>The arrays \<open>visibles\<close> and \<open>tiles\<close> that \<open>arrangeScreen\<close> computes for a context.\<close>

definition visibles_in :: "ctx \<Rightarrow> 'n Engine \<Rightarrow> wid list" where
  "visibles_in c e = filter (\<lambda>win. visible (heap e win) c) (windows e)"

definition tiles_in :: "ctx \<Rightarrow> 'n Engine \<Rightarrow> wid list" where
  "tiles_in c e =
     filter (\<lambda>win. state (heap e win) = Tile \<or> state (heap e win) = FreeTile) (visibles_in c e)"

text \<open>The window objects after the first \<open>forEach\<close> of \<open>arrangeScreen\<close>.\<close>

definition reset_heap ::
  "'n CONFIG \<Rightarrow> ctx \<Rightarrow> 'n Engine \<Rightarrow> wid \<Rightarrow> 'n Window" where
  "reset_heap cfg c e w =
     (if w \<in> set (visibles_in c e) then reset_window cfg (heap e w) else heap e w)"

text \<open>The rectangle \<open>workingArea\<close> that \<open>arrangeScreen\<close> builds from the full area.\<close>

definition inset_area ::
  "('n::{plus,minus}) CONFIG \<Rightarrow> 'n Rect \<Rightarrow> 'n Rect" where
  "inset_area cfg a = Rect (rect_x a + screenGapLeft cfg) (rect_y a + screenGapTop cfg)
       (rect_width a - (screenGapLeft cfg + screenGapRight cfg))
       (rect_height a - (screenGapTop cfg + screenGapBottom cfg))"

text \<open>The calls made on the collaborators between an engine and a later one.\<close>

definition calls_made :: "'n Engine \<Rightarrow> 'n Engine \<Rightarrow> 'n event list" where
  "calls_made e e' = drop (length (trace e)) (trace e')"

text \<open>
  A layout that is a function of the fixed data of a pass: the geometries it assigns
  depend on the tiles, on the two areas and on the window objects apart from the
  geometries they carry, so that what an earlier \<open>apply\<close> left in \<open>geometry\<close> does not
  feed into the next one.
\<close>

definition layout_ignores_geometry :: "'n Layout \<Rightarrow> bool" where
  "layout_ignores_geometry layout \<longleftrightarrow>
     (\<forall>tiles workingArea fullArea h h'.
        (\<forall>w. h' w = (h w)\<lparr>geometry := geometry (h' w)\<rparr>)
        \<longrightarrow> (\<forall>w \<in> set tiles. layout tiles workingArea fullArea h' w
                                = layout tiles workingArea fullArea h w))"

subsection \<open>Sequences of host calls\<close>

text \<open>The two calls by which the host reports windows, and a run of them.\<close>

datatype call = ManageClient wid | UnmanageClient wid

fun run_call :: "call \<Rightarrow> 'n Engine \<Rightarrow> 'n Engine" where
  "run_call (ManageClient w) e = manageClient w e"
| "run_call (UnmanageClient w) e = unmanageClient w e"

fun run_calls :: "call list \<Rightarrow> 'n Engine \<Rightarrow> 'n Engine" where
  "run_calls [] e = e"
| "run_calls (c # cs) e = run_calls cs (run_call c e)"

text \<open>
  The host keeps its side when it never reports a window as new while the engine still
  holds it.
\<close>

fun fresh_calls :: "call list \<Rightarrow> 'n Engine \<Rightarrow> bool" where
  "fresh_calls [] e = True"
| "fresh_calls (ManageClient w # cs) e =
     (w \<notin> set (windows e) \<and> fresh_calls cs (manageClient w e))"
| "fresh_calls (UnmanageClient w # cs) e = fresh_calls cs (unmanageClient w e)"

subsection \<open>Floating-point numbers\<close>

text \<open>
  The numbers of JavaScript are the IEEE 754 double-precision values. The type \<open>number\<close>
  holds those of them that have no fractional part: the integers a double can hold, the
  two infinities and \<open>NaN\<close>. The two zeros are one value here, as they are for \<open>===\<close>. The
  sums and differences of such numbers are again such numbers, so the type is closed
  under the two operations the engine uses.
\<close>

datatype number = Finite int | PosInf | NegInf | NaN

text \<open>
  A double has 53 significant bits. Up to \<open>2 ^ 53\<close> in magnitude every integer is a double;
  from there on the doubles are the multiples of 2, from \<open>2 ^ 54\<close> on the multiples of 4,
  and so on: \<open>spacing 1 a\<close> is the distance between neighbouring doubles at magnitude \<open>a\<close>.
\<close>

function spacing :: "int \<Rightarrow> int \<Rightarrow> int" where
  "spacing q a = (if 0 < q \<and> 2 ^ 53 * q \<le> a then spacing (2 * q) a else q)"
  by pat_completeness auto
termination
  by (relation "measure (\<lambda>(q, a). nat (a - q))") auto

text \<open>
  The result of an operation is the exact result rounded to the nearest double, to the
  one with the even significand when two are equally near, and to an infinity when the
  rounded value is \<open>2 ^ 1024\<close> or more in magnitude.
\<close>

definition round_double :: "int \<Rightarrow> number" where
  "round_double n =
     (let q = spacing 1 \<bar>n\<bar>;
          m = n div q;
          r = n mod q;
          v = (if 2 * r < q then m * q
               else if q < 2 * r then (m + 1) * q
               else if even m then m * q else (m + 1) * q)
      in if 2 ^ 1024 \<le> v then PosInf
         else if v \<le> - (2 ^ 1024) then NegInf
         else Finite v)"

fun js_negate :: "number \<Rightarrow> number" where
  "js_negate (Finite a) = Finite (- a)"
| "js_negate PosInf = NegInf"
| "js_negate NegInf = PosInf"
| "js_negate NaN = NaN"

text \<open>The operator \<open>+\<close> on two numbers.\<close>

fun js_add :: "number \<Rightarrow> number \<Rightarrow> number" where
  "js_add NaN b = NaN"
| "js_add a NaN = NaN"
| "js_add PosInf NegInf = NaN"
| "js_add NegInf PosInf = NaN"
| "js_add PosInf b = PosInf"
| "js_add NegInf b = NegInf"
| "js_add a PosInf = PosInf"
| "js_add a NegInf = NegInf"
| "js_add (Finite a) (Finite b) = round_double (a + b)"

text \<open>
  \<open>a + b\<close> and \<open>a - b\<close> on \<open>number\<close> are the operators of the language; the difference
  is the sum with the negated number, as in IEEE 754.
\<close>

instantiation number :: "{plus, minus}"
begin

definition plus_number :: "number \<Rightarrow> number \<Rightarrow> number" where
  "plus_number a b = js_add a b"

definition minus_number :: "number \<Rightarrow> number \<Rightarrow> number" where
  "minus_number a b = js_add a (js_negate b)"

instance ..

end

subsection \<open>Concrete configurations\<close>

text \<open>
  Window 5 is \<open>FreeTile\<close>, 6 floats, 7 is \<open>FreeTile\<close> on context 1, 8 is a window the
  engine is told to ignore; every other window is tiled. All but 7 are on context 0,
  and a window is visible on its own context only.
\<close>

definition example_heap :: "wid \<Rightarrow> number Window" where
  "example_heap w =
     \<lparr>state = (if w = 5 \<or> w = 7 then FreeTile else if w = 6 then Float else Tile),
      noBorder = False,
      geometry = Rect (Finite 0) (Finite 0) (Finite 0) (Finite 0),
      actualGeometry = Rect (Finite 0) (Finite 0) (Finite 0) (Finite 0),
      wcontext = (if w = 7 then 1 else 0),
      shouldIgnore = (w = 8),
      shouldFloat = (w = 6),
      visible = (\<lambda>c. c = (if w = 7 then 1 else 0))\<rparr>"

definition example_engine :: "wid list \<Rightarrow> number Engine" where
  "example_engine ws = \<lparr>windows = ws, heap = example_heap, trace = [], timers = []\<rparr>"

definition example_driver :: "wid option \<Rightarrow> number Driver" where
  "example_driver cur =
     \<lparr>getWorkingArea = (\<lambda>c. Rect (Finite 0) (Finite 0) (Finite 1920) (Finite 1080)),
      getCurrentContext = 0, getCurrentWindow = cur\<rparr>"

definition example_config :: "bool \<Rightarrow> number CONFIG" where
  "example_config sole =
     \<lparr>screenGapLeft = Finite 10, screenGapTop = Finite 20,
      screenGapRight = Finite 30, screenGapBottom = Finite 40,
      maximizeSoleTile = sole, noTileBorder = False\<rparr>"

text \<open>
  A working area at \<open>x = 2 ^ 53\<close> of width \<open>10 ^ 16\<close>, and gaps of 1 to the left and to
  the right.
\<close>

definition example_far_driver :: "number Driver" where
  "example_far_driver =
     \<lparr>getWorkingArea =
        (\<lambda>c. Rect (Finite 9007199254740992) (Finite 0) (Finite 10000000000000000) (Finite 1080)),
      getCurrentContext = 0, getCurrentWindow = None\<rparr>"

definition example_unit_config :: "number CONFIG" where
  "example_unit_config =
     \<lparr>screenGapLeft = Finite 1, screenGapTop = Finite 0,
      screenGapRight = Finite 1, screenGapBottom = Finite 0,
      maximizeSoleTile = False, noTileBorder = False\<rparr>"

text \<open>A working area narrower than the gaps of \<open>example_config\<close>.\<close>

definition example_narrow_driver :: "number Driver" where
  "example_narrow_driver =
     \<lparr>getWorkingArea = (\<lambda>c. Rect (Finite 0) (Finite 0) (Finite 30) (Finite 1080)),
      getCurrentContext = 0, getCurrentWindow = None\<rparr>"

text \<open>Window 2 alone, shown by the host at another place than its geometry.\<close>

definition example_moved :: "number Engine" where
  "example_moved =
     (example_engine [2])
       \<lparr>heap := example_heap
          (2 := (example_heap 2)
             \<lparr>actualGeometry := Rect (Finite 5) (Finite 5) (Finite 5) (Finite 5)\<rparr>)\<rparr>"

text \<open>A layout of columns: the tile at index \<open>i\<close> gets the \<open>i\<close>-th column of width 100.\<close>

definition example_layout :: "number Layout" where
  "example_layout tiles workingArea fullArea h w =
     Rect (rect_x workingArea + Finite (100 * indexOf tiles w)) (rect_y workingArea)
          (Finite 100) (rect_height workingArea)"

section \<open>Facts about the primitives\<close>

lemma indexOf_ge: "- 1 \<le> indexOf xs w"
  by (induction xs) (auto simp: Let_def)

lemma indexOf_neg_iff: "indexOf xs w < 0 \<longleftrightarrow> w \<notin> set xs"
proof (induction xs)
  case Nil
  then show ?case by simp
next
  case (Cons v vs)
  have "- 1 \<le> indexOf vs w" by (rule indexOf_ge)
  with Cons show ?case by (auto simp: Let_def)
qed

lemma indexOf_less_length: "indexOf xs w < int (length xs)"
  by (induction xs) (auto simp: Let_def)

lemma indexOf_nth: "w \<in> set xs \<Longrightarrow> xs ! nat (indexOf xs w) = w"
proof (induction xs)
  case Nil
  then show ?case by simp
next
  case (Cons v vs)
  show ?case
  proof (cases "v = w")
    case True
    then show ?thesis by simp
  next
    case False
    with Cons.prems have mem: "w \<in> set vs" by simp
    then have nn: "\<not> indexOf vs w < 0" by (simp add: indexOf_neg_iff)
    then have "nat (indexOf vs w + 1) = Suc (nat (indexOf vs w))" by simp
    with False nn Cons.IH [OF mem] show ?thesis by (simp add: Let_def)
  qed
qed

lemma indexOf_first: "w \<in> set xs \<Longrightarrow> w \<notin> set (take (nat (indexOf xs w)) xs)"
proof (induction xs)
  case Nil
  then show ?case by simp
next
  case (Cons v vs)
  show ?case
  proof (cases "v = w")
    case True
    then show ?thesis by simp
  next
    case False
    with Cons.prems have mem: "w \<in> set vs" by simp
    then have nn: "\<not> indexOf vs w < 0" by (simp add: indexOf_neg_iff)
    then have "nat (indexOf vs w + 1) = Suc (nat (indexOf vs w))" by simp
    with False nn Cons.IH [OF mem] show ?thesis by (simp add: Let_def)
  qed
qed

lemma indexOf_unique:
  "k < length xs \<Longrightarrow> xs ! k = w \<Longrightarrow> w \<notin> set (take k xs) \<Longrightarrow> indexOf xs w = int k"
proof (induction xs arbitrary: k)
  case Nil
  then show ?case by simp
next
  case (Cons v vs)
  show ?case
  proof (cases k)
    case 0
    with Cons.prems show ?thesis by simp
  next
    case (Suc j)
    with Cons.prems have "j < length vs" "vs ! j = w" "w \<notin> set (take j vs)" "v \<noteq> w"
      by auto
    with Cons.IH [of j] Suc show ?thesis by (simp add: Let_def)
  qed
qed

lemma set_splice1: "set (splice1 xs i) \<subseteq> set xs"
  unfolding splice1_def by (auto dest: in_set_takeD in_set_dropD)

lemma distinct_splice1: "distinct xs \<Longrightarrow> distinct (splice1 xs i)"
proof (induction xs arbitrary: i)
  case Nil
  then show ?case by (simp add: splice1_def)
next
  case (Cons v vs)
  show ?case
  proof (cases i)
    case 0
    with Cons.prems show ?thesis by (simp add: splice1_def)
  next
    case (Suc j)
    from Cons.prems have "distinct (splice1 vs j)" by (simp add: Cons.IH)
    moreover from Cons.prems have "v \<notin> set (splice1 vs j)"
      using set_splice1 [of vs j] by auto
    ultimately show ?thesis using Suc by (simp add: splice1_def)
  qed
qed

text \<open>
  The double remainder of \<open>moveFocus\<close> and \<open>moveTile\<close>: for an index from \<open>-1\<close> up to
  \<open>n - 1\<close> it is the non-negative residue of \<open>i + s\<close>.
\<close>

lemma js_rem_nonneg: "0 \<le> a \<Longrightarrow> 0 < n \<Longrightarrow> js_rem a n = a mod n"
  by (cases "a = 0") (simp_all add: js_rem_def)

lemma js_rem_bounds: "0 < n \<Longrightarrow> - n < js_rem s n \<and> js_rem s n < n"
proof -
  assume n: "0 < n"
  then have "0 \<le> \<bar>s\<bar> mod n" "\<bar>s\<bar> mod n < n" by simp_all
  with n show ?thesis
    by (cases "s < 0"; cases "s = 0") (simp_all add: js_rem_def)
qed

lemma js_rem_cong: "0 < n \<Longrightarrow> js_rem s n mod n = s mod n"
proof (cases "s < 0")
  case True
  assume n: "0 < n"
  with True have "js_rem s n = - ((- s) mod n)" by (simp add: js_rem_def)
  then show ?thesis by (simp add: mod_minus_eq)
next
  case False
  assume n: "0 < n"
  with False show ?thesis by (simp add: js_rem_nonneg)
qed

lemma js_wrap:
  assumes "- 1 \<le> i" "i < n" "0 < n"
  shows "js_rem (i + js_rem s n + n) n = (i + s) mod n"
proof -
  from js_rem_bounds [OF assms(3), of s] assms have "0 \<le> i + js_rem s n + n" by simp
  then have "js_rem (i + js_rem s n + n) n = (i + js_rem s n + n) mod n"
    using assms(3) by (rule js_rem_nonneg)
  also have "\<dots> = (i + js_rem s n) mod n" by simp
  also have "\<dots> = (i + js_rem s n mod n) mod n" by (simp add: mod_add_right_eq)
  also have "\<dots> = (i + s) mod n" using assms(3) by (simp add: js_rem_cong mod_add_right_eq)
  finally show ?thesis .
qed

text \<open>Sums and differences that stay below \<open>2 ^ 53\<close> in magnitude are exact.\<close>

lemma spacing_small: "a < 2 ^ 53 \<Longrightarrow> spacing 1 a = 1"
  by (simp add: spacing.simps)

lemma round_double_small:
  assumes "\<bar>n\<bar> < 2 ^ 53"
  shows "round_double n = Finite n"
proof -
  have "(2::int) ^ 53 < 2 ^ 1024" by simp
  with assms have b: "\<not> 2 ^ 1024 \<le> n" "\<not> n \<le> - (2 ^ 1024)" by linarith+
  from assms have "spacing 1 \<bar>n\<bar> = 1" by (rule spacing_small)
  with b show ?thesis by (simp add: round_double_def Let_def)
qed

lemma small_sum:
  fixes u v :: int
  assumes "\<bar>u\<bar> \<le> 2 ^ 51" "\<bar>v\<bar> \<le> 2 ^ 51"
  shows "\<bar>u + v\<bar> < 2 ^ 53"
proof -
  have "\<bar>u + v\<bar> \<le> \<bar>u\<bar> + \<bar>v\<bar>" by (rule abs_triangle_ineq)
  also from assms have "\<dots> \<le> 2 ^ 51 + 2 ^ 51" by (rule add_mono)
  also have "\<dots> < (2::int) ^ 53" by simp
  finally show ?thesis .
qed

lemma small_diff:
  fixes u v w :: int
  assumes "\<bar>u\<bar> \<le> 2 ^ 51" "\<bar>v\<bar> \<le> 2 ^ 51" "\<bar>w\<bar> \<le> 2 ^ 51"
  shows "\<bar>u - (v + w)\<bar> < 2 ^ 53"
proof -
  have "\<bar>u - (v + w)\<bar> \<le> \<bar>u\<bar> + \<bar>v + w\<bar>" by (rule abs_triangle_ineq4)
  also have "\<dots> \<le> \<bar>u\<bar> + (\<bar>v\<bar> + \<bar>w\<bar>)" by (simp add: abs_triangle_ineq)
  also from assms have "\<dots> \<le> 2 ^ 51 + (2 ^ 51 + 2 ^ 51)" by (intro add_mono)
  also have "\<dots> < (2::int) ^ 53" by simp
  finally show ?thesis .
qed

lemma add_small: "\<bar>a + b\<bar> < 2 ^ 53 \<Longrightarrow> Finite a + Finite b = Finite (a + b)"
  by (simp add: plus_number_def round_double_small)

lemma sub_small: "\<bar>a - b\<bar> < 2 ^ 53 \<Longrightarrow> Finite a - Finite b = Finite (a - b)"
  by (simp add: minus_number_def round_double_small)

section \<open>Promotion to master\<close>

text \<open>
  Claim C5. When the window \<open>w\<close> sits at index \<open>k > 0\<close> of the window list (its position,
  that is its first and, in a list without duplicates, only occurrence),
  \<open>setMaster w\<close> leaves the list \<open>w\<close>, then the \<open>k\<close> windows that were before it in their
  order, then the windows that were after index \<open>k\<close>, unchanged. When \<open>w\<close> is at index 0
  or not in the list, \<open>setMaster w\<close> changes nothing.
\<close>

theorem setMaster_moves_to_front:
  "(k < length (windows e) \<and> windows e ! k = w \<and> w \<notin> set (take k (windows e)) \<and> 0 < k
      \<longrightarrow> windows (setMaster w e) = w # take k (windows e) @ drop (Suc k) (windows e)
        \<and> windows (setMaster w e) ! 0 = w
        \<and> (\<forall>i < k. windows (setMaster w e) ! Suc i = windows e ! i)
        \<and> (\<forall>i. k < i \<and> i < length (windows e) \<longrightarrow> windows (setMaster w e) ! i = windows e ! i)
        \<and> length (windows (setMaster w e)) = length (windows e)
        \<and> heap (setMaster w e) = heap e \<and> trace (setMaster w e) = trace e)
   \<and> ((windows e \<noteq> [] \<and> windows e ! 0 = w) \<or> w \<notin> set (windows e) \<longrightarrow> setMaster w e = e)"
proof (intro conjI impI)
  assume h: "k < length (windows e) \<and> windows e ! k = w \<and> w \<notin> set (take k (windows e)) \<and> 0 < k"
  then have idx: "indexOf (windows e) w = int k"
    by (simp add: indexOf_unique)
  from h have not_first: "\<not> (case windows e of [] \<Rightarrow> False | w0 # _ \<Rightarrow> w0 = w)"
    by (cases "windows e"; cases k) auto
  from idx not_first
  have eq: "setMaster w e = e\<lparr>windows := w # take k (windows e) @ drop (Suc k) (windows e)\<rparr>"
    by (simp add: setMaster_def splice1_def)
  show "windows (setMaster w e) = w # take k (windows e) @ drop (Suc k) (windows e)"
    by (simp add: eq)
  show "windows (setMaster w e) ! 0 = w"
    by (simp add: eq)
  show "\<forall>i < k. windows (setMaster w e) ! Suc i = windows e ! i"
    using h by (simp add: eq nth_append)
  show "\<forall>i. k < i \<and> i < length (windows e) \<longrightarrow> windows (setMaster w e) ! i = windows e ! i"
  proof (intro allI impI)
    fix i assume i: "k < i \<and> i < length (windows e)"
    then obtain j where j: "i = Suc j" by (cases i) auto
    with i h have "(take k (windows e) @ drop (Suc k) (windows e)) ! j = windows e ! Suc j"
      by (simp add: nth_append min_def)
    with j show "windows (setMaster w e) ! i = windows e ! i"
      by (simp add: eq)
  qed
  show "length (windows (setMaster w e)) = length (windows e)"
    using h by (cases "windows e") (simp_all add: eq)
  show "heap (setMaster w e) = heap e" by (simp add: eq)
  show "trace (setMaster w e) = trace e" by (simp add: eq)
next
  assume "(windows e \<noteq> [] \<and> windows e ! 0 = w) \<or> w \<notin> set (windows e)"
  then show "setMaster w e = e"
  proof
    assume "windows e \<noteq> [] \<and> windows e ! 0 = w"
    then show ?thesis by (cases "windows e") (auto simp: setMaster_def)
  next
    assume "w \<notin> set (windows e)"
    then have "indexOf (windows e) w < 0" by (simp add: indexOf_neg_iff)
    then show ?thesis by (simp add: setMaster_def Let_def split: list.splits)
  qed
qed

theorem setMaster_moves_to_front_witness:
  "(2 < length (windows (example_engine [1, 2, 3, 4]))
      \<and> windows (example_engine [1, 2, 3, 4]) ! 2 = 3
      \<and> 3 \<notin> set (take 2 (windows (example_engine [1, 2, 3, 4]))) \<and> (0::nat) < 2)
   \<and> windows (setMaster 3 (example_engine [1, 2, 3, 4])) = [3, 1, 2, 4]
   \<and> 8 \<notin> set (windows (example_engine [1, 2, 3, 4]))
   \<and> setMaster 8 (example_engine [1, 2, 3, 4]) = example_engine [1, 2, 3, 4]"
  using setMaster_moves_to_front [of 2 "example_engine [1, 2, 3, 4]" 3]
    setMaster_moves_to_front [of 0 "example_engine [1, 2, 3, 4]" 8]
  by (simp add: example_engine_def)

section \<open>The window list under manage and unmanage calls\<close>

lemma windows_manageClient:
  "windows (manageClient w e) =
     (if shouldIgnore (heap e w) then windows e else windows e @ [w])"
  by (simp add: manageClient_def set_window_def Let_def)

lemma windows_unmanageClient:
  "windows (unmanageClient w e) =
     (if w \<in> set (windows e) then splice1 (windows e) (nat (indexOf (windows e) w))
      else windows e)"
  using indexOf_neg_iff [of "windows e" w] by (auto simp: unmanageClient_def Let_def)

lemma distinct_run_calls:
  "distinct (windows e) \<Longrightarrow> fresh_calls cs e \<Longrightarrow> distinct (windows (run_calls cs e))"
proof (induction cs arbitrary: e)
  case Nil
  then show ?case by simp
next
  case (Cons c cs)
  show ?case
  proof (cases c)
    case (ManageClient w)
    with Cons.prems have "distinct (windows (manageClient w e))"
      by (simp add: windows_manageClient)
    with Cons.prems ManageClient show ?thesis by (simp add: Cons.IH)
  next
    case (UnmanageClient w)
    with Cons.prems have "distinct (windows (unmanageClient w e))"
      by (simp add: windows_unmanageClient distinct_splice1)
    with Cons.prems UnmanageClient show ?thesis by (simp add: Cons.IH)
  qed
qed

text \<open>
  Claim C2, as stated, fails: \<open>manageClient\<close> has no guard against a window it already
  holds. Called twice with the non-ignored window 1 on the empty list, it leaves the
  list \<open>[1, 1]\<close>.
\<close>

theorem manageClient_twice_duplicates:
  "windows (run_calls [ManageClient 1, ManageClient 1] (example_engine [])) = [1, 1]
   \<and> \<not> distinct (windows (run_calls [ManageClient 1, ManageClient 1] (example_engine [])))"
  by (simp add: manageClient_def set_window_def example_engine_def example_heap_def)

text \<open>
  Claim C2, amended. Starting from the empty window list, after any sequence of
  \<open>manageClient\<close> and \<open>unmanageClient\<close> calls in which \<open>manageClient\<close> is never called
  with a window that is in the list at that moment, every window occurs at most once
  in the list.
\<close>

theorem no_duplicates_when_host_manages_once:
  "windows e = [] \<Longrightarrow> fresh_calls cs e \<Longrightarrow> distinct (windows (run_calls cs e))"
  by (rule distinct_run_calls) simp_all

theorem no_duplicates_when_host_manages_once_witness:
  "windows (example_engine []) = []
   \<and> fresh_calls [ManageClient 1, ManageClient 2, UnmanageClient 1, ManageClient 1]
        (example_engine [])
   \<and> distinct (windows (run_calls
        [ManageClient 1, ManageClient 2, UnmanageClient 1, ManageClient 1] (example_engine [])))
   \<and> windows (run_calls
        [ManageClient 1, ManageClient 2, UnmanageClient 1, ManageClient 1] (example_engine []))
      = [2, 1]"
proof -
  have w: "windows (example_engine []) = []"
    by (simp add: example_engine_def)
  have f: "fresh_calls [ManageClient 1, ManageClient 2, UnmanageClient 1, ManageClient 1]
             (example_engine [])"
    by (simp add: manageClient_def unmanageClient_def set_window_def splice1_def
          example_engine_def example_heap_def)
  have r: "windows (run_calls
        [ManageClient 1, ManageClient 2, UnmanageClient 1, ManageClient 1] (example_engine []))
      = [2, 1]"
    by (simp add: manageClient_def unmanageClient_def set_window_def splice1_def
          example_engine_def example_heap_def)
  from no_duplicates_when_host_manages_once [OF w f] w f r show ?thesis by simp
qed

section \<open>Cyclic focus\<close>

lemma moveFocus_at_indexOf:
  assumes "getCurrentWindow driver = Some w"
    and "visibles = filter (\<lambda>win. visible (heap e win) (wcontext (heap e w))) (windows e)"
    and "indexOf visibles w = i" and "0 \<le> i" and "N = int (length visibles)"
  shows "moveFocus driver S e =
           (if S = 0 then e
            else e\<lparr>trace := trace e @ [SetCurrentWindow (visibles ! nat ((i + S) mod N))]\<rparr>)
         \<and> 1 \<le> N \<and> 0 \<le> (i + S) mod N \<and> (i + S) mod N < N"
proof -
  from assms(3,4) have mem: "w \<in> set visibles"
    using indexOf_neg_iff [of visibles w] by auto
  then have ne: "visibles \<noteq> []" by auto
  with assms(5) have N: "0 < N" by simp
  have iN: "i < N" using indexOf_less_length [of visibles w] assms(3,5) by simp
  from assms(4) iN N have wrap: "js_rem (i + js_rem S N + N) N = (i + S) mod N"
    by (intro js_wrap) simp_all
  have "S \<noteq> 0 \<Longrightarrow> moveFocus driver S e =
      e\<lparr>trace := trace e @ [SetCurrentWindow (visibles ! nat ((i + S) mod N))]\<rparr>"
    using assms ne wrap
    by (simp add: moveFocus_def Let_def emit_def del: indexOf.simps)
  moreover have "moveFocus driver 0 e = e" by (simp add: moveFocus_def)
  ultimately show ?thesis using N by auto
qed

text \<open>
  Claim C4. Let the driver's current window \<open>w\<close> be at index \<open>i\<close> of the \<open>N\<close> windows
  visible in its context: \<open>w\<close> is the element at index \<open>i\<close> and at no index before.
  For every integer step \<open>S\<close> other than 0, \<open>moveFocus S\<close> makes exactly one call,
  \<open>setCurrentWindow\<close> on the visible window at index \<open>(i + S) mod N\<close>, where \<open>mod\<close> is
  the non-negative residue; that index is inside the visible list. For \<open>S = 0\<close> nothing
  changes.
\<close>

theorem moveFocus_cyclic:
  assumes "getCurrentWindow driver = Some w"
    and "visibles = filter (\<lambda>win. visible (heap e win) (wcontext (heap e w))) (windows e)"
    and "i < length visibles" and "visibles ! i = w" and "w \<notin> set (take i visibles)"
    and "N = int (length visibles)"
  shows "moveFocus driver S e =
           (if S = 0 then e
            else e\<lparr>trace := trace e
                     @ [SetCurrentWindow (visibles ! nat ((int i + S) mod N))]\<rparr>)
         \<and> 1 \<le> N \<and> 0 \<le> (int i + S) mod N \<and> (int i + S) mod N < N"
proof -
  from assms(3,4,5) have idx: "indexOf visibles w = int i" by (rule indexOf_unique)
  have nonneg: "0 \<le> int i" by simp
  show ?thesis
    by (rule moveFocus_at_indexOf [OF assms(1) assms(2) idx nonneg assms(6)])
qed

theorem moveFocus_cyclic_witness:
  "(getCurrentWindow (example_driver (Some 4)) = Some 4
    \<and> [2, 3, 4, 9] = filter (\<lambda>win. visible (heap (example_engine [2, 3, 4, 9]) win)
                                 (wcontext (heap (example_engine [2, 3, 4, 9]) 4)))
                        (windows (example_engine [2, 3, 4, 9]))
    \<and> (2::nat) < length [2, 3, 4, 9::nat] \<and> [2, 3, 4, 9] ! 2 = (4::nat)
    \<and> (4::nat) \<notin> set (take 2 [2, 3, 4, 9]))
   \<and> trace (moveFocus (example_driver (Some 4)) 1 (example_engine [2, 3, 4, 9]))
       = [SetCurrentWindow 9]
   \<and> trace (moveFocus (example_driver (Some 4)) (- 3) (example_engine [2, 3, 4, 9]))
       = [SetCurrentWindow 9]
   \<and> trace (moveFocus (example_driver (Some 4)) 6 (example_engine [2, 3, 4, 9]))
       = [SetCurrentWindow 2]
   \<and> moveFocus (example_driver (Some 4)) 0 (example_engine [2, 3, 4, 9])
       = example_engine [2, 3, 4, 9]"
proof -
  let ?e = "example_engine [2, 3, 4, 9]"
  have c: "getCurrentWindow (example_driver (Some 4)) = Some 4"
    by (simp add: example_driver_def)
  have v: "[2, 3, 4, 9] = filter (\<lambda>win. visible (heap ?e win) (wcontext (heap ?e 4))) (windows ?e)"
    by (simp add: example_engine_def example_heap_def)
  have p: "(2::nat) < length [2, 3, 4, 9::nat]" "[2, 3, 4, 9] ! 2 = (4::nat)"
    "(4::nat) \<notin> set (take 2 [2, 3, 4, 9])"
    by simp_all
  have n: "(4::int) = int (length [2, 3, 4, 9::nat])" by simp
  note th = moveFocus_cyclic [OF c v p n]
  have t: "trace ?e = []" by (simp add: example_engine_def)
  have 1: "trace (moveFocus (example_driver (Some 4)) 1 ?e) = [SetCurrentWindow 9]"
    using th [of 1] by (simp add: t)
  have 2: "trace (moveFocus (example_driver (Some 4)) (- 3) ?e) = [SetCurrentWindow 9]"
    using th [of "- 3"] by (simp add: t)
  have 3: "trace (moveFocus (example_driver (Some 4)) 6 ?e) = [SetCurrentWindow 2]"
    using th [of 6] by (simp add: t)
  have 4: "moveFocus (example_driver (Some 4)) 0 ?e = ?e"
    using th [of 0] by simp
  show ?thesis by (intro conjI; fact)
qed

lemmas example_defs = example_engine_def example_heap_def example_driver_def
  example_config_def example_layout_def

section \<open>One arrangement pass\<close>

lemma forEach_set_window:
  assumes idem: "\<And>x. g (g x) = g x"
  shows "forEach vs (\<lambda>window. set_window window g) e =
         e\<lparr>heap := (\<lambda>w. if w \<in> set vs then g (heap e w) else heap e w)\<rparr>"
proof (induction vs arbitrary: e)
  case Nil
  then show ?case by (simp add: forEach_def)
next
  case (Cons v vs)
  have "forEach (v # vs) (\<lambda>window. set_window window g) e =
        forEach vs (\<lambda>window. set_window window g) (set_window v g e)"
    by (simp add: forEach_def)
  also have "\<dots> = (set_window v g e)
      \<lparr>heap := (\<lambda>w. if w \<in> set vs then g (heap (set_window v g e) w)
                     else heap (set_window v g e) w)\<rparr>"
    by (rule Cons.IH)
  also have "\<dots> = e\<lparr>heap := (\<lambda>w. if w \<in> set (v # vs) then g (heap e w) else heap e w)\<rparr>"
    by (auto simp: set_window_def idem fun_eq_iff)
  finally show ?case .
qed

lemma reset_window_idem: "reset_window cfg (reset_window cfg win) = reset_window cfg win"
  by (simp add: reset_window_def Let_def)

lemma forEach_commit: "forEach vs commit e = e\<lparr>trace := trace e @ map Commit vs\<rparr>"
proof (induction vs arbitrary: e)
  case Nil
  then show ?case by (simp add: forEach_def)
next
  case (Cons v vs)
  have "forEach (v # vs) commit e = forEach vs commit (commit v e)"
    by (simp add: forEach_def)
  also have "\<dots> = (commit v e)\<lparr>trace := trace (commit v e) @ map Commit vs\<rparr>"
    by (rule Cons.IH)
  also have "\<dots> = e\<lparr>trace := trace e @ map Commit (v # vs)\<rparr>"
    by (simp add: commit_def emit_def)
  finally show ?case .
qed

lemma arrangeScreen_sole:
  assumes "maximizeSoleTile cfg" and "length (tiles_in c e) = 1"
  shows "arrangeScreen cfg driver layouts c e =
     e\<lparr>heap := (reset_heap cfg c e)
          (hd (tiles_in c e) :=
             (reset_heap cfg c e (hd (tiles_in c e)))
               \<lparr>noBorder := True, geometry := getWorkingArea driver c\<rparr>),
       trace := trace e @ map Commit (visibles_in c e)\<rparr>"
  using assms
  by (simp add: arrangeScreen_def Let_def forEach_set_window reset_window_idem forEach_commit
      set_window_def visibles_in_def [symmetric] tiles_in_def [symmetric] reset_heap_def [abs_def] fun_eq_iff)

lemma arrangeScreen_layout:
  assumes "\<not> (maximizeSoleTile cfg \<and> length (tiles_in c e) = 1)" and "tiles_in c e \<noteq> []"
  shows "arrangeScreen cfg driver layouts c e =
     e\<lparr>heap := (\<lambda>w. if w \<in> set (tiles_in c e)
                    then (reset_heap cfg c e w)
                      \<lparr>geometry := layouts c (tiles_in c e) (inset_area cfg (getWorkingArea driver c))
                          (getWorkingArea driver c) (reset_heap cfg c e) w\<rparr>
                    else reset_heap cfg c e w),
       trace := trace e @ Apply (tiles_in c e) (inset_area cfg (getWorkingArea driver c))
                  (getWorkingArea driver c) # map Commit (visibles_in c e)\<rparr>"
  using assms
  by (cases "maximizeSoleTile cfg")
    (simp_all add: arrangeScreen_def Let_def forEach_set_window reset_window_idem forEach_commit
      layout_apply_def emit_def inset_area_def
      set_window_def visibles_in_def [symmetric] tiles_in_def [symmetric] reset_heap_def [abs_def] fun_eq_iff)

lemma arrangeScreen_none:
  assumes "tiles_in c e = []"
  shows "arrangeScreen cfg driver layouts c e =
     e\<lparr>heap := reset_heap cfg c e, trace := trace e @ map Commit (visibles_in c e)\<rparr>"
  using assms
  by (simp add: arrangeScreen_def Let_def forEach_set_window reset_window_idem forEach_commit
      set_window_def visibles_in_def [symmetric] tiles_in_def [symmetric] reset_heap_def [abs_def] fun_eq_iff)

lemma visibles_in_mem: "w \<in> set (visibles_in c e) \<Longrightarrow> visible (heap e w) c"
  by (simp add: visibles_in_def)

lemma tiles_in_subset: "w \<in> set (tiles_in c e) \<Longrightarrow> w \<in> set (visibles_in c e)"
  by (simp add: tiles_in_def)

lemma tiles_in_state:
  "w \<in> set (tiles_in c e) \<Longrightarrow> state (heap e w) = Tile \<or> state (heap e w) = FreeTile"
  by (simp add: tiles_in_def)

lemma arrangeScreen_cases:
  obtains (sole) "maximizeSoleTile cfg" "length (tiles_in c e) = 1"
  | (layout) "\<not> (maximizeSoleTile cfg \<and> length (tiles_in c e) = 1)" "tiles_in c e \<noteq> []"
  | (none) "tiles_in c e = []"
  by blast

lemma windows_arrangeScreen: "windows (arrangeScreen cfg driver layouts c e) = windows e"
  by (cases rule: arrangeScreen_cases [of cfg c e])
    (simp_all add: arrangeScreen_sole arrangeScreen_layout arrangeScreen_none)

lemma timers_arrangeScreen: "timers (arrangeScreen cfg driver layouts c e) = timers e"
  by (cases rule: arrangeScreen_cases [of cfg c e])
    (simp_all add: arrangeScreen_sole arrangeScreen_layout arrangeScreen_none)

lemma state_reset_window:
  "state (reset_window cfg win) = (if state win = FreeTile then Tile else state win)"
  by (simp add: reset_window_def Let_def)

lemma visible_reset_window: "visible (reset_window cfg win) = visible win"
  by (simp add: reset_window_def Let_def)

lemma state_arrangeScreen:
  "state (heap (arrangeScreen cfg driver layouts c e) w) =
     (if w \<in> set (visibles_in c e) \<and> state (heap e w) = FreeTile then Tile
      else state (heap e w))"
  by (cases rule: arrangeScreen_cases [of cfg c e])
    (simp_all add: arrangeScreen_sole arrangeScreen_layout arrangeScreen_none
       reset_heap_def state_reset_window)

lemma visible_arrangeScreen:
  "visible (heap (arrangeScreen cfg driver layouts c e) w) = visible (heap e w)"
  by (cases rule: arrangeScreen_cases [of cfg c e])
    (simp_all add: arrangeScreen_sole arrangeScreen_layout arrangeScreen_none
       reset_heap_def visible_reset_window)

lemma heap_arrangeScreen_invisible:
  assumes "\<not> visible (heap e w) c"
  shows "heap (arrangeScreen cfg driver layouts c e) w = heap e w"
proof -
  from assms have nv: "w \<notin> set (visibles_in c e)" by (auto dest: visibles_in_mem)
  then have nt: "w \<notin> set (tiles_in c e)" by (auto dest: tiles_in_subset)
  show ?thesis
  proof (cases rule: arrangeScreen_cases [of cfg c e])
    case sole
    then have "hd (tiles_in c e) \<in> set (tiles_in c e)" by (cases "tiles_in c e") auto
    with nt have "hd (tiles_in c e) \<noteq> w" by auto
    with sole nv show ?thesis by (simp add: arrangeScreen_sole reset_heap_def)
  next
    case layout
    with nv nt show ?thesis by (simp add: arrangeScreen_layout reset_heap_def)
  next
    case none
    with nv show ?thesis by (simp add: arrangeScreen_none reset_heap_def)
  qed
qed

lemma trace_arrangeScreen:
  "trace (arrangeScreen cfg driver layouts c e) =
     trace e
     @ (if \<not> (maximizeSoleTile cfg \<and> length (tiles_in c e) = 1) \<and> tiles_in c e \<noteq> []
        then [Apply (tiles_in c e) (inset_area cfg (getWorkingArea driver c))
                (getWorkingArea driver c)]
        else [])
     @ map Commit (visibles_in c e)"
  by (cases rule: arrangeScreen_cases [of cfg c e])
    (auto simp add: arrangeScreen_sole arrangeScreen_layout arrangeScreen_none)

lemma reset_window_geometry:
  "reset_window cfg (win\<lparr>geometry := g\<rparr>) = (reset_window cfg win)\<lparr>geometry := g\<rparr>"
  by (simp add: reset_window_def Let_def)

lemma reset_window_sole:
  "state win = Tile \<or> state win = FreeTile \<Longrightarrow>
   (reset_window cfg ((reset_window cfg win)\<lparr>noBorder := True, geometry := g\<rparr>))
      \<lparr>noBorder := True, geometry := g\<rparr>
   = (reset_window cfg win)\<lparr>noBorder := True, geometry := g\<rparr>"
  by (auto simp: reset_window_def Let_def)

lemma visibles_in_arrangeScreen:
  "visibles_in c' (arrangeScreen cfg driver layouts c e) = visibles_in c' e"
  by (simp add: visibles_in_def windows_arrangeScreen visible_arrangeScreen)

lemma tiles_in_arrangeScreen:
  "tiles_in c (arrangeScreen cfg driver layouts c e) = tiles_in c e"
  unfolding tiles_in_def visibles_in_arrangeScreen
  by (rule filter_cong) (auto simp: state_arrangeScreen)

lemma reset_heap_arrangeScreen:
  "reset_heap cfg c (arrangeScreen cfg driver layouts c e) w =
     (if w \<in> set (visibles_in c e)
      then reset_window cfg (heap (arrangeScreen cfg driver layouts c e) w)
      else heap (arrangeScreen cfg driver layouts c e) w)"
  by (simp add: reset_heap_def visibles_in_arrangeScreen)

lemma reset_heap_sole:
  assumes "maximizeSoleTile cfg" and "length (tiles_in c e) = 1"
  shows "(reset_heap cfg c (arrangeScreen cfg driver layouts c e))
          (hd (tiles_in c e) :=
             (reset_heap cfg c (arrangeScreen cfg driver layouts c e) (hd (tiles_in c e)))
               \<lparr>noBorder := True, geometry := getWorkingArea driver c\<rparr>)
       = heap (arrangeScreen cfg driver layouts c e)"
proof -
  from assms(2) have mem: "hd (tiles_in c e) \<in> set (tiles_in c e)"
    by (cases "tiles_in c e") auto
  note st = tiles_in_state [OF mem] and vis = tiles_in_subset [OF mem]
  show ?thesis
    using st vis 
    unfolding fun_eq_iff reset_heap_arrangeScreen
    by (auto simp: arrangeScreen_sole [OF assms] reset_heap_def
        reset_window_idem reset_window_sole)
qed

lemma reset_heap_layout:
  assumes "\<not> (maximizeSoleTile cfg \<and> length (tiles_in c e) = 1)" and "tiles_in c e \<noteq> []"
  shows "reset_heap cfg c (arrangeScreen cfg driver layouts c e) w
       = heap (arrangeScreen cfg driver layouts c e) w"
    and "heap (arrangeScreen cfg driver layouts c e) w
       = (reset_heap cfg c e w)\<lparr>geometry := geometry (heap (arrangeScreen cfg driver layouts c e) w)\<rparr>"
  unfolding reset_heap_arrangeScreen
  by (auto simp: arrangeScreen_layout [OF assms] reset_heap_def
        reset_window_idem reset_window_geometry dest: tiles_in_subset)

lemma reset_heap_none:
  assumes "tiles_in c e = []"
  shows "reset_heap cfg c (arrangeScreen cfg driver layouts c e)
       = heap (arrangeScreen cfg driver layouts c e)"
  unfolding fun_eq_iff reset_heap_arrangeScreen
  by (auto simp: arrangeScreen_none [OF assms] reset_heap_def reset_window_idem)

lemma example_layout_ignores_geometry: "layout_ignores_geometry example_layout"
  by (simp add: layout_ignores_geometry_def example_layout_def)

section \<open>Sole-tile maximization\<close>

text \<open>
  Claim C3. When \<open>maximizeSoleTile\<close> is set and the tiles of the context (the windows
  visible in it whose state is \<open>Tile\<close> or \<open>FreeTile\<close>) are exactly one window \<open>w\<close>,
  \<open>arrangeScreen\<close> leaves \<open>w\<close> with the full working area of the driver as its geometry
  and with \<open>noBorder\<close> true; the only calls it makes are the commits of the visible
  windows, so \<open>apply\<close> of the layout is not called, and the result is the same whatever
  the layouts are.
\<close>

theorem arrangeScreen_sole_tile:
  assumes "maximizeSoleTile cfg" and "tiles_in c e = [w]"
  shows "geometry (heap (arrangeScreen cfg driver layouts c e) w) = getWorkingArea driver c
       \<and> noBorder (heap (arrangeScreen cfg driver layouts c e) w) = True
       \<and> calls_made e (arrangeScreen cfg driver layouts c e) = map Commit (visibles_in c e)
       \<and> (\<forall>ts wa fa. Apply ts wa fa \<notin> set (calls_made e (arrangeScreen cfg driver layouts c e)))
       \<and> arrangeScreen cfg driver layouts' c e = arrangeScreen cfg driver layouts c e"
proof -
  from assms have len: "length (tiles_in c e) = 1" by simp
  note eq = arrangeScreen_sole [OF assms(1) len]
  show ?thesis using assms(2) by (auto simp: eq calls_made_def)
qed

theorem arrangeScreen_sole_tile_witness:
  "maximizeSoleTile (example_config True)
   \<and> tiles_in 0 (example_engine [2, 6, 7]) = [2]
   \<and> geometry (heap (arrangeScreen (example_config True) (example_driver None)
         (\<lambda>c. example_layout) 0 (example_engine [2, 6, 7])) 2)
       = Rect (Finite 0) (Finite 0) (Finite 1920) (Finite 1080)
   \<and> noBorder (heap (arrangeScreen (example_config True) (example_driver None)
         (\<lambda>c. example_layout) 0 (example_engine [2, 6, 7])) 2)
   \<and> trace (arrangeScreen (example_config True) (example_driver None)
         (\<lambda>c. example_layout) 0 (example_engine [2, 6, 7])) = [Commit 2, Commit 6]"
proof -
  have a: "maximizeSoleTile (example_config True)" by (simp add: example_config_def)
  have b: "tiles_in 0 (example_engine [2, 6, 7]) = [2]"
    by (simp add: tiles_in_def visibles_in_def example_defs)
  have v: "visibles_in 0 (example_engine [2, 6, 7]) = [2, 6]"
    by (simp add: visibles_in_def example_defs)
  have t: "trace (example_engine [2, 6, 7]) = []" by (simp add: example_engine_def)
  have w: "getWorkingArea (example_driver None) 0 = Rect (Finite 0) (Finite 0) (Finite 1920) (Finite 1080)"
    by (simp add: example_driver_def)
  from arrangeScreen_sole_tile [OF a b, of "example_driver None" "\<lambda>c. example_layout"]
  show ?thesis using a b by (simp add: v t w calls_made_def)
qed

section \<open>Gap insets\<close>

lemma apply_call_area:
  "Apply ts wa fa \<in> set (calls_made e (arrangeScreen cfg driver layouts c e))
   \<Longrightarrow> wa = inset_area cfg (getWorkingArea driver c) \<and> fa = getWorkingArea driver c"
  by (auto simp: trace_arrangeScreen calls_made_def split: if_splits)

text \<open>
  Claim C7, as stated, fails: the engine computes the area in floating point, and it
  subtracts the sum of the two gaps where the claim subtracts one gap after the other.
  With the full area at \<open>x = 2 ^ 53\<close> and of width \<open>10 ^ 16\<close>, and gaps of 1 to the left
  and to the right, the area passed to \<open>apply\<close> has \<open>x = 2 ^ 53\<close> and width
  \<open>10 ^ 16 - 2\<close>. The claim's area is not passed, neither with its operations read as
  those of the language (then \<open>w - L - R\<close> is \<open>10 ^ 16\<close>: each subtraction of 1 is
  rounded away) nor with them read as exact (then \<open>x + L\<close> is \<open>2 ^ 53 + 1\<close>).
\<close>

theorem gap_area_is_rounded:
  "trace (arrangeScreen example_unit_config example_far_driver (\<lambda>c. example_layout) 0
            (example_engine [2, 6, 7]))
     = [Apply [2]
          (Rect (Finite 9007199254740992) (Finite 0) (Finite 9999999999999998) (Finite 1080))
          (Rect (Finite 9007199254740992) (Finite 0) (Finite 10000000000000000) (Finite 1080)),
        Commit 2, Commit 6]
   \<and> Apply [2]
         (Rect (Finite 9007199254740992 + Finite 1) (Finite 0 + Finite 0)
               (Finite 10000000000000000 - Finite 1 - Finite 1) (Finite 1080 - Finite 0 - Finite 0))
         (Rect (Finite 9007199254740992) (Finite 0) (Finite 10000000000000000) (Finite 1080))
       \<notin> set (trace (arrangeScreen example_unit_config example_far_driver
                        (\<lambda>c. example_layout) 0 (example_engine [2, 6, 7])))
   \<and> Apply [2]
         (Rect (Finite (9007199254740992 + 1)) (Finite (0 + 0))
               (Finite (10000000000000000 - 1 - 1)) (Finite (1080 - 0 - 0)))
         (Rect (Finite 9007199254740992) (Finite 0) (Finite 10000000000000000) (Finite 1080))
       \<notin> set (trace (arrangeScreen example_unit_config example_far_driver
                        (\<lambda>c. example_layout) 0 (example_engine [2, 6, 7])))
   \<and> Finite 10000000000000000 - Finite 1 - Finite 1 = Finite 10000000000000000"
proof -
  have b: "tiles_in 0 (example_engine [2, 6, 7]) = [2]"
    by (simp add: tiles_in_def visibles_in_def example_defs)
  have v: "visibles_in 0 (example_engine [2, 6, 7]) = [2, 6]"
    by (simp add: visibles_in_def example_defs)
  have x: "Finite 9007199254740992 + Finite 1 = Finite 9007199254740992"
    by (simp add: plus_number_def round_double_def spacing.simps Let_def)
  have w: "Finite 10000000000000000 - (Finite 1 + Finite 1) = Finite 9999999999999998"
    by (simp add: plus_number_def minus_number_def round_double_def spacing.simps Let_def)
  have w': "Finite 10000000000000000 - Finite 1 = Finite 10000000000000000"
    by (simp add: minus_number_def round_double_def spacing.simps Let_def)
  have z: "Finite 0 + Finite 0 = Finite 0" "Finite 1080 - Finite 0 = Finite 1080"
    by (simp_all add: add_small sub_small)
  have t: "trace (arrangeScreen example_unit_config example_far_driver (\<lambda>c. example_layout) 0
            (example_engine [2, 6, 7]))
     = [Apply [2]
          (Rect (Finite 9007199254740992) (Finite 0) (Finite 9999999999999998) (Finite 1080))
          (Rect (Finite 9007199254740992) (Finite 0) (Finite 10000000000000000) (Finite 1080)),
        Commit 2, Commit 6]"
    unfolding trace_arrangeScreen b v
    by (simp add: inset_area_def example_unit_config_def example_far_driver_def
          example_engine_def x w z)
  show ?thesis unfolding t by (simp add: x w' z)
qed

text \<open>
  Claim C7, amended. With gaps \<open>(L, T, R, B)\<close> and the full working area
  \<open>(ax, ay, aw, ah)\<close> of the driver, the call of \<open>apply\<close> that \<open>arrangeScreen\<close> makes (it
  makes one when there are tiles and the sole-tile case does not apply) has the working
  area \<open>(ax + L, ay + T, aw - (L + R), ah - (T + B))\<close> and the full area unchanged, and no
  call of \<open>apply\<close> has any other area; here \<open>+\<close> and \<open>-\<close> are the operations of the
  language on its numbers, whatever they compute, so each result is a rounded one.
  Nothing is required of the sign of the gaps or of the resulting width and height:
  the pass has no failing branch. When the area and the gaps are integers of magnitude
  at most \<open>2 ^ 51\<close>, this area is exactly \<open>(x + l, y + t, w - l - r, h - t - b)\<close>.
\<close>

theorem arrangeScreen_gap_area:
  fixes e :: "'n::{plus,minus} Engine" and e2 :: "number Engine"
  shows "(getWorkingArea driver c = Rect ax ay aw ah
          \<and> screenGapLeft cfg = L \<and> screenGapTop cfg = T
          \<and> screenGapRight cfg = R \<and> screenGapBottom cfg = B
          \<longrightarrow> (\<not> (maximizeSoleTile cfg \<and> length (tiles_in c e) = 1) \<and> tiles_in c e \<noteq> []
               \<longrightarrow> calls_made e (arrangeScreen cfg driver layouts c e) =
                     Apply (tiles_in c e) (Rect (ax + L) (ay + T) (aw - (L + R)) (ah - (T + B)))
                       (Rect ax ay aw ah)
                     # map Commit (visibles_in c e))
            \<and> (\<forall>ts wa fa.
                  Apply ts wa fa \<in> set (calls_made e (arrangeScreen cfg driver layouts c e))
                  \<longrightarrow> wa = Rect (ax + L) (ay + T) (aw - (L + R)) (ah - (T + B))
                      \<and> fa = Rect ax ay aw ah))
       \<and> (getWorkingArea driver2 c2 = Rect (Finite x) (Finite y) (Finite w) (Finite h)
          \<and> screenGapLeft cfg2 = Finite l \<and> screenGapTop cfg2 = Finite t
          \<and> screenGapRight cfg2 = Finite r \<and> screenGapBottom cfg2 = Finite b
          \<and> \<bar>x\<bar> \<le> 2 ^ 51 \<and> \<bar>y\<bar> \<le> 2 ^ 51 \<and> \<bar>w\<bar> \<le> 2 ^ 51 \<and> \<bar>h\<bar> \<le> 2 ^ 51
          \<and> \<bar>l\<bar> \<le> 2 ^ 51 \<and> \<bar>t\<bar> \<le> 2 ^ 51 \<and> \<bar>r\<bar> \<le> 2 ^ 51 \<and> \<bar>b\<bar> \<le> 2 ^ 51
          \<longrightarrow> (\<forall>ts wa fa.
                  Apply ts wa fa \<in> set (calls_made e2 (arrangeScreen cfg2 driver2 layouts2 c2 e2))
                  \<longrightarrow> wa = Rect (Finite (x + l)) (Finite (y + t))
                             (Finite (w - l - r)) (Finite (h - t - b))
                      \<and> fa = Rect (Finite x) (Finite y) (Finite w) (Finite h)))"
proof (intro conjI impI allI)
  assume a: "getWorkingArea driver c = Rect ax ay aw ah
          \<and> screenGapLeft cfg = L \<and> screenGapTop cfg = T
          \<and> screenGapRight cfg = R \<and> screenGapBottom cfg = B"
  then have area: "inset_area cfg (getWorkingArea driver c)
                   = Rect (ax + L) (ay + T) (aw - (L + R)) (ah - (T + B))"
    by (simp add: inset_area_def)
  {
    assume "\<not> (maximizeSoleTile cfg \<and> length (tiles_in c e) = 1) \<and> tiles_in c e \<noteq> []"
    then have "calls_made e (arrangeScreen cfg driver layouts c e) =
        Apply (tiles_in c e) (inset_area cfg (getWorkingArea driver c)) (getWorkingArea driver c)
        # map Commit (visibles_in c e)"
      by (simp add: trace_arrangeScreen calls_made_def)
    with a area show "calls_made e (arrangeScreen cfg driver layouts c e) =
        Apply (tiles_in c e) (Rect (ax + L) (ay + T) (aw - (L + R)) (ah - (T + B)))
          (Rect ax ay aw ah)
        # map Commit (visibles_in c e)"
      by simp
  }
  {
    fix ts wa fa
    assume "Apply ts wa fa \<in> set (calls_made e (arrangeScreen cfg driver layouts c e))"
    then have "wa = inset_area cfg (getWorkingArea driver c) \<and> fa = getWorkingArea driver c"
      by (rule apply_call_area)
    with a area show "wa = Rect (ax + L) (ay + T) (aw - (L + R)) (ah - (T + B))"
      and "fa = Rect ax ay aw ah"
      by simp_all
  }
next
  fix ts wa fa
  assume a: "getWorkingArea driver2 c2 = Rect (Finite x) (Finite y) (Finite w) (Finite h)
          \<and> screenGapLeft cfg2 = Finite l \<and> screenGapTop cfg2 = Finite t
          \<and> screenGapRight cfg2 = Finite r \<and> screenGapBottom cfg2 = Finite b
          \<and> \<bar>x\<bar> \<le> 2 ^ 51 \<and> \<bar>y\<bar> \<le> 2 ^ 51 \<and> \<bar>w\<bar> \<le> 2 ^ 51 \<and> \<bar>h\<bar> \<le> 2 ^ 51
          \<and> \<bar>l\<bar> \<le> 2 ^ 51 \<and> \<bar>t\<bar> \<le> 2 ^ 51 \<and> \<bar>r\<bar> \<le> 2 ^ 51 \<and> \<bar>b\<bar> \<le> 2 ^ 51"
    and m: "Apply ts wa fa \<in> set (calls_made e2 (arrangeScreen cfg2 driver2 layouts2 c2 e2))"
  from a have bx: "\<bar>x\<bar> \<le> 2 ^ 51" and bv: "\<bar>y\<bar> \<le> 2 ^ 51"
    and bw: "\<bar>w\<bar> \<le> 2 ^ 51" and bh: "\<bar>h\<bar> \<le> 2 ^ 51"
    and bl: "\<bar>l\<bar> \<le> 2 ^ 51" and bt: "\<bar>t\<bar> \<le> 2 ^ 51"
    and br: "\<bar>r\<bar> \<le> 2 ^ 51" and bb: "\<bar>b\<bar> \<le> 2 ^ 51"
    by blast+
  have "\<bar>x + l\<bar> < 2 ^ 53" "\<bar>y + t\<bar> < 2 ^ 53" "\<bar>l + r\<bar> < 2 ^ 53" "\<bar>t + b\<bar> < 2 ^ 53"
    "\<bar>w - (l + r)\<bar> < 2 ^ 53" "\<bar>h - (t + b)\<bar> < 2 ^ 53"
    by (rule small_sum [OF bx bl] small_sum [OF bv bt] small_sum [OF bl br]
          small_sum [OF bt bb] small_diff [OF bw bl br] small_diff [OF bh bt bb])+
  then have s: "Finite x + Finite l = Finite (x + l)" "Finite y + Finite t = Finite (y + t)"
    "Finite w - (Finite l + Finite r) = Finite (w - l - r)"
    "Finite h - (Finite t + Finite b) = Finite (h - t - b)"
    by (simp_all add: add_small sub_small diff_diff_eq)
  from m have "wa = inset_area cfg2 (getWorkingArea driver2 c2) \<and> fa = getWorkingArea driver2 c2"
    by (rule apply_call_area)
  with a s show "wa = Rect (Finite (x + l)) (Finite (y + t)) (Finite (w - l - r)) (Finite (h - t - b))"
    and "fa = Rect (Finite x) (Finite y) (Finite w) (Finite h)"
    by (simp_all add: inset_area_def)
qed

theorem arrangeScreen_gap_area_witness:
  "(getWorkingArea example_narrow_driver 0 = Rect (Finite 0) (Finite 0) (Finite 30) (Finite 1080)
    \<and> screenGapLeft (example_config False) = Finite 10
    \<and> screenGapTop (example_config False) = Finite 20
    \<and> screenGapRight (example_config False) = Finite 30
    \<and> screenGapBottom (example_config False) = Finite 40)
   \<and> (\<not> (maximizeSoleTile (example_config False)
           \<and> length (tiles_in 0 (example_engine [2, 6, 7])) = 1)
       \<and> tiles_in 0 (example_engine [2, 6, 7]) \<noteq> [])
   \<and> (\<bar>0\<bar> \<le> (2::int) ^ 51 \<and> \<bar>30\<bar> \<le> (2::int) ^ 51 \<and> \<bar>1080\<bar> \<le> (2::int) ^ 51
       \<and> \<bar>10\<bar> \<le> (2::int) ^ 51 \<and> \<bar>20\<bar> \<le> (2::int) ^ 51 \<and> \<bar>40\<bar> \<le> (2::int) ^ 51)
   \<and> calls_made (example_engine [2, 6, 7])
        (arrangeScreen (example_config False) example_narrow_driver
           (\<lambda>c. example_layout) 0 (example_engine [2, 6, 7]))
       = [Apply [2]
            (Rect (Finite 10) (Finite 20) (Finite (- 10)) (Finite 1020))
            (Rect (Finite 0) (Finite 0) (Finite 30) (Finite 1080)),
          Commit 2, Commit 6]"
proof -
  let ?e = "example_engine [2, 6, 7]"
  have b: "tiles_in 0 ?e = [2]"
    by (simp add: tiles_in_def visibles_in_def example_defs)
  have v: "visibles_in 0 ?e = [2, 6]"
    by (simp add: visibles_in_def example_defs)
  have a: "getWorkingArea example_narrow_driver 0
             = Rect (Finite 0) (Finite 0) (Finite 30) (Finite 1080)
    \<and> screenGapLeft (example_config False) = Finite 10
    \<and> screenGapTop (example_config False) = Finite 20
    \<and> screenGapRight (example_config False) = Finite 30
    \<and> screenGapBottom (example_config False) = Finite 40"
    by (simp add: example_narrow_driver_def example_config_def)
  have pre: "\<not> (maximizeSoleTile (example_config False) \<and> length (tiles_in 0 ?e) = 1)
             \<and> tiles_in 0 ?e \<noteq> []"
    by (simp add: b example_config_def)
  have bd: "\<bar>0\<bar> \<le> (2::int) ^ 51 \<and> \<bar>30\<bar> \<le> (2::int) ^ 51 \<and> \<bar>1080\<bar> \<le> (2::int) ^ 51
        \<and> \<bar>10\<bar> \<le> (2::int) ^ 51 \<and> \<bar>20\<bar> \<le> (2::int) ^ 51 \<and> \<bar>40\<bar> \<le> (2::int) ^ 51"
    by simp
  note th = arrangeScreen_gap_area [where e = ?e and ?e2.0 = ?e
      and driver = example_narrow_driver and ?driver2.0 = example_narrow_driver
      and cfg = "example_config False" and ?cfg2.0 = "example_config False"
      and layouts = "\<lambda>c. example_layout" and ?layouts2.0 = "\<lambda>c. example_layout"
      and c = 0 and ?c2.0 = 0
      and ax = "Finite 0" and ay = "Finite 0" and aw = "Finite 30" and ah = "Finite 1080"
      and L = "Finite 10" and T = "Finite 20" and R = "Finite 30" and B = "Finite 40"
      and x = 0 and y = 0 and w = 30 and h = 1080 and l = 10 and t = 20 and r = 30 and b = 40]
  have 1: "calls_made ?e
        (arrangeScreen (example_config False) example_narrow_driver (\<lambda>c. example_layout) 0 ?e)
       = Apply (tiles_in 0 ?e)
            (Rect (Finite 0 + Finite 10) (Finite 0 + Finite 20)
                  (Finite 30 - (Finite 10 + Finite 30)) (Finite 1080 - (Finite 20 + Finite 40)))
            (Rect (Finite 0) (Finite 0) (Finite 30) (Finite 1080))
          # map Commit (visibles_in 0 ?e)"
    by (rule th [THEN conjunct1, THEN mp, OF a, THEN conjunct1, THEN mp, OF pre])
  have 2: "\<forall>ts wa fa.
             Apply ts wa fa \<in> set (calls_made ?e
               (arrangeScreen (example_config False) example_narrow_driver
                  (\<lambda>c. example_layout) 0 ?e))
             \<longrightarrow> wa = Rect (Finite (0 + 10)) (Finite (0 + 20)) (Finite (30 - 10 - 30))
                        (Finite (1080 - 20 - 40))
                 \<and> fa = Rect (Finite 0) (Finite 0) (Finite 30) (Finite 1080)"
    using th [THEN conjunct2] a bd by simp
  from 2 have 3: "\<forall>ts wa fa.
             Apply ts wa fa \<in> set (calls_made ?e
               (arrangeScreen (example_config False) example_narrow_driver
                  (\<lambda>c. example_layout) 0 ?e))
             \<longrightarrow> wa = Rect (Finite 10) (Finite 20) (Finite (- 10)) (Finite 1020)"
    by simp
  from 1 have 4: "calls_made ?e
        (arrangeScreen (example_config False) example_narrow_driver (\<lambda>c. example_layout) 0 ?e)
       = [Apply [2]
            (Rect (Finite 0 + Finite 10) (Finite 0 + Finite 20)
                  (Finite 30 - (Finite 10 + Finite 30)) (Finite 1080 - (Finite 20 + Finite 40)))
            (Rect (Finite 0) (Finite 0) (Finite 30) (Finite 1080)),
          Commit 2, Commit 6]"
    by (simp add: b v)
  from 4 have mem: "Apply [2]
            (Rect (Finite 0 + Finite 10) (Finite 0 + Finite 20)
                  (Finite 30 - (Finite 10 + Finite 30)) (Finite 1080 - (Finite 20 + Finite 40)))
            (Rect (Finite 0) (Finite 0) (Finite 30) (Finite 1080))
          \<in> set (calls_made ?e
               (arrangeScreen (example_config False) example_narrow_driver
                  (\<lambda>c. example_layout) 0 ?e))"
    by simp
  have "Rect (Finite 0 + Finite 10) (Finite 0 + Finite 20)
                  (Finite 30 - (Finite 10 + Finite 30)) (Finite 1080 - (Finite 20 + Finite 40))
               = Rect (Finite 10) (Finite 20) (Finite (- 10)) (Finite 1020)"
    by (rule 3 [THEN spec, THEN spec, THEN spec, THEN mp, OF mem])
  with 4 have 5: "calls_made ?e
        (arrangeScreen (example_config False) example_narrow_driver (\<lambda>c. example_layout) 0 ?e)
       = [Apply [2]
            (Rect (Finite 10) (Finite 20) (Finite (- 10)) (Finite 1020))
            (Rect (Finite 0) (Finite 0) (Finite 30) (Finite 1080)),
          Commit 2, Commit 6]"
    by simp
  show ?thesis
    by (rule conjI [OF a conjI [OF pre conjI [OF bd 5]]])
qed

section \<open>Windows that are not visible in the context\<close>

text \<open>
  Claim C10. A window that is not visible in the context of the pass is left as it
  is by \<open>arrangeScreen\<close>: its whole object, so its state, its \<open>noBorder\<close> flag and its
  geometry, is unchanged, and the pass does not commit it. A \<open>FreeTile\<close> window that
  is not visible stays \<open>FreeTile\<close>.
\<close>

theorem arrangeScreen_leaves_invisible_windows:
  assumes "\<not> visible (heap e w) c"
  shows "heap (arrangeScreen cfg driver layouts c e) w = heap e w
       \<and> state (heap (arrangeScreen cfg driver layouts c e) w) = state (heap e w)
       \<and> noBorder (heap (arrangeScreen cfg driver layouts c e) w) = noBorder (heap e w)
       \<and> geometry (heap (arrangeScreen cfg driver layouts c e) w) = geometry (heap e w)
       \<and> Commit w \<notin> set (calls_made e (arrangeScreen cfg driver layouts c e))"
proof -
  from assms have "w \<notin> set (visibles_in c e)" by (auto dest: visibles_in_mem)
  then have "Commit w \<notin> set (calls_made e (arrangeScreen cfg driver layouts c e))"
    by (auto simp: trace_arrangeScreen calls_made_def)
  with heap_arrangeScreen_invisible [OF assms] show ?thesis by simp
qed

theorem arrangeScreen_leaves_invisible_windows_witness:
  "\<not> visible (heap (example_engine [2, 6, 7]) 7) 0
   \<and> state (heap (example_engine [2, 6, 7]) 7) = FreeTile
   \<and> state (heap (arrangeScreen (example_config False) (example_driver None)
         (\<lambda>c. example_layout) 0 (example_engine [2, 6, 7])) 7) = FreeTile
   \<and> Commit 7 \<notin> set (trace (arrangeScreen (example_config False) (example_driver None)
         (\<lambda>c. example_layout) 0 (example_engine [2, 6, 7])))"
proof -
  have a: "\<not> visible (heap (example_engine [2, 6, 7]) 7) 0" by (simp add: example_defs)
  have t: "trace (example_engine [2, 6, 7]) = []" by (simp add: example_engine_def)
  have s: "state (heap (example_engine [2, 6, 7]) 7) = FreeTile" by (simp add: example_defs)
  from arrangeScreen_leaves_invisible_windows [OF a, of "example_config False"
      "example_driver None" "\<lambda>c. example_layout"]
  show ?thesis using a by (simp add: s t calls_made_def)
qed

section \<open>Promotion of \<open>FreeTile\<close> windows\<close>

text \<open>
  Claim C8, as stated, fails: the pass only visits the windows visible in its context.
  Window 7 is in the list, is \<open>FreeTile\<close> and is visible on context 1 only; after the
  pass for context 0 it is still \<open>FreeTile\<close>.
\<close>

theorem invisible_FreeTile_stays:
  "7 \<in> set (windows (example_engine [2, 6, 7]))
   \<and> state (heap (example_engine [2, 6, 7]) 7) = FreeTile
   \<and> state (heap (arrangeScreen (example_config False) (example_driver None)
         (\<lambda>c. example_layout) 0 (example_engine [2, 6, 7])) 7) = FreeTile"
  by (simp add: state_arrangeScreen visibles_in_def example_defs)

text \<open>
  Claim C8, amended. A window of the list that is \<open>FreeTile\<close> and visible in the
  context of the pass is \<open>Tile\<close> after \<open>arrangeScreen\<close>, and it is still \<open>Tile\<close> after
  any further pass, for any context; no window visible in the context is \<open>FreeTile\<close>
  after the pass.
\<close>

theorem visible_FreeTile_becomes_Tile:
  assumes "w \<in> set (windows e)" and "visible (heap e w) c" and "state (heap e w) = FreeTile"
  shows "state (heap (arrangeScreen cfg driver layouts c e) w) = Tile
       \<and> (\<forall>cfg' driver' layouts' c'.
            state (heap (arrangeScreen cfg' driver' layouts' c'
                           (arrangeScreen cfg driver layouts c e)) w) = Tile)
       \<and> (\<forall>v \<in> set (visibles_in c e).
            state (heap (arrangeScreen cfg driver layouts c e) v) \<noteq> FreeTile)"
proof -
  from assms have "w \<in> set (visibles_in c e)" by (simp add: visibles_in_def)
  with assms(3) have 1: "state (heap (arrangeScreen cfg driver layouts c e) w) = Tile"
    by (simp add: state_arrangeScreen)
  then have 2: "\<forall>cfg' driver' layouts' c'.
            state (heap (arrangeScreen cfg' driver' layouts' c'
                           (arrangeScreen cfg driver layouts c e)) w) = Tile"
    by (simp add: state_arrangeScreen)
  have 3: "\<forall>v \<in> set (visibles_in c e).
            state (heap (arrangeScreen cfg driver layouts c e) v) \<noteq> FreeTile"
    by (simp add: state_arrangeScreen)
  from 1 2 3 show ?thesis by simp
qed

theorem visible_FreeTile_becomes_Tile_witness:
  "5 \<in> set (windows (example_engine [2, 5, 7]))
   \<and> visible (heap (example_engine [2, 5, 7]) 5) 0
   \<and> state (heap (example_engine [2, 5, 7]) 5) = FreeTile
   \<and> state (heap (arrangeScreen (example_config False) (example_driver None)
         (\<lambda>c. example_layout) 0 (example_engine [2, 5, 7])) 5) = Tile"
proof -
  have a: "5 \<in> set (windows (example_engine [2, 5, 7]))" by (simp add: example_defs)
  have b: "visible (heap (example_engine [2, 5, 7]) 5) 0" by (simp add: example_defs)
  have c: "state (heap (example_engine [2, 5, 7]) 5) = FreeTile" by (simp add: example_defs)
  from visible_FreeTile_becomes_Tile [OF a b c, of "example_config False"
      "example_driver None" "\<lambda>c. example_layout"]
  show ?thesis using a b c by simp
qed

section \<open>Idempotence of the arrangement\<close>

text \<open>
  Claim C1. Let the layout of the context be a function of the fixed data of the
  pass (\<open>layout_ignores_geometry\<close>). Then a second \<open>arrangeScreen\<close> for the same
  context, right after the first and with the same configuration, driver answers and
  layouts, gives every window the geometry the first one gave it; indeed it leaves
  every window object as the first pass left it and repeats the same calls.
\<close>

theorem arrangeScreen_idempotent:
  assumes "layout_ignores_geometry (layouts c)"
  shows "(\<forall>w. geometry (heap (arrangeScreen cfg driver layouts c
                                (arrangeScreen cfg driver layouts c e)) w)
              = geometry (heap (arrangeScreen cfg driver layouts c e) w))
       \<and> heap (arrangeScreen cfg driver layouts c (arrangeScreen cfg driver layouts c e))
          = heap (arrangeScreen cfg driver layouts c e)
       \<and> calls_made (arrangeScreen cfg driver layouts c e)
            (arrangeScreen cfg driver layouts c (arrangeScreen cfg driver layouts c e))
          = calls_made e (arrangeScreen cfg driver layouts c e)"
proof -
  define e' where "e' = arrangeScreen cfg driver layouts c e"
  have tiles: "tiles_in c e' = tiles_in c e" and vis: "visibles_in c e' = visibles_in c e"
    by (simp_all add: e'_def tiles_in_arrangeScreen visibles_in_arrangeScreen)
  have calls: "calls_made e' (arrangeScreen cfg driver layouts c e') = calls_made e e'"
    unfolding calls_made_def trace_arrangeScreen tiles vis
    by (simp add: e'_def trace_arrangeScreen)
  have heap_eq: "heap (arrangeScreen cfg driver layouts c e') = heap e'"
  proof (cases rule: arrangeScreen_cases [of cfg c e])
    case sole
    with tiles have sole': "maximizeSoleTile cfg" "length (tiles_in c e') = 1" by simp_all
    show ?thesis
      using reset_heap_sole [OF sole, of driver layouts]
      by (simp add: arrangeScreen_sole [OF sole'] tiles e'_def [symmetric])
  next
    case layout
    with tiles have layout': "\<not> (maximizeSoleTile cfg \<and> length (tiles_in c e') = 1)"
      "tiles_in c e' \<noteq> []" by simp_all
    have r: "reset_heap cfg c e' = heap e'"
      using reset_heap_layout(1) [OF layout, of driver layouts]
      by (simp add: fun_eq_iff e'_def)
    have d: "\<forall>w. heap e' w = (reset_heap cfg c e w)\<lparr>geometry := geometry (heap e' w)\<rparr>"
      using reset_heap_layout(2) [OF layout, of driver layouts]
      by (simp add: e'_def)
    from assms d have same: "\<forall>w \<in> set (tiles_in c e).
        layouts c (tiles_in c e) (inset_area cfg (getWorkingArea driver c))
          (getWorkingArea driver c) (heap e') w
      = layouts c (tiles_in c e) (inset_area cfg (getWorkingArea driver c))
          (getWorkingArea driver c) (reset_heap cfg c e) w"
      unfolding layout_ignores_geometry_def by blast
    have "heap (arrangeScreen cfg driver layouts c e') w = heap e' w" for w
    proof (cases "w \<in> set (tiles_in c e)")
      case True
      with same have g: "layouts c (tiles_in c e) (inset_area cfg (getWorkingArea driver c))
          (getWorkingArea driver c) (heap e') w
      = geometry (heap e' w)"
        by (simp add: e'_def arrangeScreen_layout [OF layout])
      from True show ?thesis
        by (simp add: arrangeScreen_layout [OF layout'] r tiles g)
    next
      case False
      then show ?thesis by (simp add: arrangeScreen_layout [OF layout'] r tiles)
    qed
    then show ?thesis by (simp add: fun_eq_iff)
  next
    case none
    with tiles have none': "tiles_in c e' = []" by simp
    show ?thesis
      using reset_heap_none [OF none, of cfg driver layouts]
      by (simp add: arrangeScreen_none [OF none'] e'_def [symmetric])
  qed
  from heap_eq calls show ?thesis by (simp add: e'_def)
qed

theorem arrangeScreen_idempotent_witness:
  "layout_ignores_geometry example_layout
   \<and> geometry (heap (arrangeScreen (example_config False) (example_driver None)
         (\<lambda>c. example_layout) 0 (example_engine [2, 3, 5, 6, 7])) 5)
       = Rect (Finite 210) (Finite 20) (Finite 100) (Finite 1020)
   \<and> geometry (heap (arrangeScreen (example_config False) (example_driver None)
         (\<lambda>c. example_layout) 0
         (arrangeScreen (example_config False) (example_driver None)
            (\<lambda>c. example_layout) 0 (example_engine [2, 3, 5, 6, 7]))) 5)
       = Rect (Finite 210) (Finite 20) (Finite 100) (Finite 1020)"
proof -
  have t: "tiles_in 0 (example_engine [2, 3, 5, 6, 7]) = [2, 3, 5]"
    by (simp add: tiles_in_def visibles_in_def example_defs)
  have c: "\<not> (maximizeSoleTile (example_config False)
               \<and> length (tiles_in 0 (example_engine [2, 3, 5, 6, 7])) = 1)"
    "tiles_in 0 (example_engine [2, 3, 5, 6, 7]) \<noteq> []"
    by (simp_all add: t)
  have g: "geometry (heap (arrangeScreen (example_config False) (example_driver None)
         (\<lambda>c. example_layout) 0 (example_engine [2, 3, 5, 6, 7])) 5)
       = Rect (Finite 210) (Finite 20) (Finite 100) (Finite 1020)"
    unfolding arrangeScreen_layout [OF c] t
    by (simp add: inset_area_def example_layout_def example_driver_def example_config_def
          add_small sub_small)
  from arrangeScreen_idempotent [of "\<lambda>c. example_layout" 0 "example_config False"
      "example_driver None" "example_engine [2, 3, 5, 6, 7]"] example_layout_ignores_geometry
  show ?thesis by (simp add: g)
qed

section \<open>The deferred commit\<close>

text \<open>
  Claim C9. \<open>enforceClientSize w\<close> hands a callback to the timer only when \<open>w\<close> is in
  state \<open>Tile\<close> and its actual geometry differs from its geometry (and then exactly one,
  for \<open>w\<close>, with delay 10); it commits nothing itself and leaves windows and list as
  they are. Whatever the engine is when the callback runs, the callback commits \<open>w\<close>
  only if \<open>w\<close> is in state \<open>Tile\<close> then: if it is not, the callback changes nothing.
\<close>

theorem enforceClientSize_deferred_commit:
  "(timers (enforceClientSize w e) \<noteq> timers e
      \<longrightarrow> state (heap e w) = Tile
          \<and> \<not> equals (actualGeometry (heap e w)) (geometry (heap e w)))
   \<and> (state (heap e w) = Tile \<and> \<not> equals (actualGeometry (heap e w)) (geometry (heap e w))
      \<longrightarrow> timers (enforceClientSize w e) = timers e @ [(w, 10)])
   \<and> trace (enforceClientSize w e) = trace e
   \<and> heap (enforceClientSize w e) = heap e
   \<and> windows (enforceClientSize w e) = windows e
   \<and> (\<forall>e'. state (heap e' w) \<noteq> Tile \<longrightarrow> timer_callback w e' = e')
   \<and> (\<forall>e' v. Commit v \<in> set (calls_made e' (timer_callback w e'))
          \<longrightarrow> v = w \<and> state (heap e' w) = Tile)
   \<and> (\<forall>e'. state (heap e' w) = Tile \<longrightarrow> calls_made e' (timer_callback w e') = [Commit w])"
  by (simp add: enforceClientSize_def timer_callback_def commit_def emit_def calls_made_def)

theorem enforceClientSize_deferred_commit_witness:
  "(state (heap example_moved 2) = Tile
      \<and> \<not> equals (actualGeometry (heap example_moved 2)) (geometry (heap example_moved 2)))
   \<and> timers (enforceClientSize 2 example_moved) = timers example_moved @ [(2, 10)]
   \<and> timers (enforceClientSize 2 example_moved) \<noteq> timers example_moved
   \<and> state (heap (example_engine [6]) 6) \<noteq> Tile
   \<and> timer_callback 6 (example_engine [6]) = example_engine [6]"
proof -
  have a: "state (heap example_moved 2) = Tile
      \<and> \<not> equals (actualGeometry (heap example_moved 2)) (geometry (heap example_moved 2))"
    by (simp add: example_moved_def example_engine_def example_heap_def equals_def)
  have b: "state (heap (example_engine [6]) 6) \<noteq> Tile"
    by (simp add: example_engine_def example_heap_def)
  note th2 = enforceClientSize_deferred_commit [of 2 example_moved]
  note th6 = enforceClientSize_deferred_commit [of 6 "example_engine [6]"]
  have 1: "timers (enforceClientSize 2 example_moved) = timers example_moved @ [(2, 10)]"
    by (rule th2 [THEN conjunct2, THEN conjunct1, THEN mp, OF a])
  have 2: "timer_callback 6 (example_engine [6]) = example_engine [6]"
    by (rule th6 [THEN conjunct2, THEN conjunct2, THEN conjunct2, THEN conjunct2,
          THEN conjunct2, THEN conjunct1, THEN spec, THEN mp, OF b])
  from a b 1 2 show ?thesis by simp
qed

section \<open>Swapping tiles\<close>

text \<open>
  When the driver's current window is one of the windows visible in its own context
  and the window list has no duplicates, \<open>moveTile\<close> is either no change or the exchange
  of two positions of the list, and \<open>moveTile (- S)\<close> after \<open>moveTile S\<close> gives the engine
  back as it was.
\<close>

lemma indexOf_map_inj: "inj f \<Longrightarrow> indexOf (map f xs) (f y) = indexOf xs y"
  by (induction xs) (simp_all add: inj_eq Let_def)

lemma swap_as_map:
  assumes "distinct xs" and "a < length xs" and "b < length xs"
  shows "xs[b := xs ! a, a := xs ! b] =
         map (\<lambda>v. if v = xs ! a then xs ! b else if v = xs ! b then xs ! a else v) xs"
proof (rule nth_equalityI)
  show "length (xs[b := xs ! a, a := xs ! b]) =
        length (map (\<lambda>v. if v = xs ! a then xs ! b else if v = xs ! b then xs ! a else v) xs)"
    by simp
next
  fix k assume "k < length (xs[b := xs ! a, a := xs ! b])"
  then have k: "k < length xs" by simp
  with assms show "xs[b := xs ! a, a := xs ! b] ! k =
        map (\<lambda>v. if v = xs ! a then xs ! b else if v = xs ! b then xs ! a else v) xs ! k"
    by (auto simp: nth_list_update nth_eq_iff_index_eq)
qed

lemma moveTile_unfold:
  assumes cur: "getCurrentWindow driver = Some w"
    and mem: "w \<in> set (visibles_in (wcontext (heap e w)) e)"
  shows "moveTile driver S e =
     (let vs = visibles_in (wcontext (heap e w)) e;
          j = (indexOf vs w + S) mod int (length vs)
      in if S = 0 \<or> length vs < 2 \<or> indexOf vs w = j then e
         else e\<lparr>windows := (windows e)
                  [nat (indexOf (windows e) (vs ! nat j)) := w,
                   nat (indexOf (windows e) w) := vs ! nat j]\<rparr>)"
proof -
  define vs where "vs = visibles_in (wcontext (heap e w)) e"
  define n where "n = int (length vs)"
  define i where "i = indexOf vs w"
  define j where "j = (i + S) mod n"
  from mem have memv: "w \<in> set vs" by (simp add: vs_def)
  then have n: "0 < n" by (cases vs) (auto simp: n_def)
  from memv have i0: "0 \<le> i" using indexOf_neg_iff [of vs w] by (simp add: i_def)
  have iN: "i < n" using indexOf_less_length [of vs w] by (simp add: i_def n_def)
  from i0 iN n have wrap: "js_rem (i + js_rem S n + n) n = j"
    unfolding j_def by (intro js_wrap) simp_all
  from n have j: "0 \<le> j" "j < n" by (simp_all add: j_def)
  then have "nat j < length vs" by (simp add: n_def)
  then have dmem: "vs ! nat j \<in> set vs" by simp
  have sub: "set vs \<subseteq> set (windows e)" by (auto simp: vs_def visibles_in_def)
  with memv dmem have wl: "w \<in> set (windows e)" and dl: "vs ! nat j \<in> set (windows e)"
    by auto
  have rng: "0 \<le> indexOf (windows e) u \<and> indexOf (windows e) u < int (length (windows e))"
    if "u \<in> set (windows e)" for u
    using that indexOf_neg_iff [of "windows e" u] indexOf_less_length [of "windows e" u]
    by auto
  have set2: "array_set (array_set (windows e) (indexOf (windows e) (vs ! nat j)) w)
                (indexOf (windows e) w) (vs ! nat j)
            = (windows e)[nat (indexOf (windows e) (vs ! nat j)) := w,
                          nat (indexOf (windows e) w) := vs ! nat j]"
    using rng [OF wl] rng [OF dl] by (simp add: array_set_def)
  have "moveTile driver S e =
     (if S = 0 \<or> length vs < 2 \<or> i = j then e
         else e\<lparr>windows := (windows e)
                  [nat (indexOf (windows e) (vs ! nat j)) := w,
                   nat (indexOf (windows e) w) := vs ! nat j]\<rparr>)"
    unfolding moveTile_def cur Let_def option.case visibles_in_def [symmetric]
      vs_def [symmetric] n_def [symmetric] i_def [symmetric] wrap set2
    by auto
  then show ?thesis
    unfolding Let_def vs_def [symmetric] n_def [symmetric] i_def [symmetric] j_def [symmetric]
    by simp
qed

lemma mod_fixed_back:
  fixes i S n :: int
  assumes "0 \<le> i" "i < n" "(i + S) mod n = i"
  shows "(i - S) mod n = i"
proof -
  from assms have "(i + S) mod n = i mod n" by simp
  then have "n dvd (i + S) - i" by (simp only: mod_eq_dvd_iff)
  then have "n dvd S" by simp
  then have "n dvd i - (i - S)" by simp
  then have "i mod n = (i - S) mod n" by (simp only: mod_eq_dvd_iff)
  with assms show ?thesis by simp
qed

lemma mod_step_back:
  fixes i S n :: int
  assumes "0 \<le> i" "i < n"
  shows "((i + S) mod n - S) mod n = i"
proof -
  have "((i + S) mod n - S) mod n = (i + S - S) mod n" by (rule mod_diff_left_eq)
  with assms show ?thesis by simp
qed

lemma update_back:
  assumes "a < length xs" "b < length xs"
  shows "xs[b := xs ! a, a := xs ! b, a := xs ! a, b := xs ! b] = xs"
proof (rule nth_equalityI)
  show "length (xs[b := xs ! a, a := xs ! b, a := xs ! a, b := xs ! b]) = length xs" by simp
next
  fix k assume "k < length (xs[b := xs ! a, a := xs ! b, a := xs ! a, b := xs ! b])"
  with assms show "xs[b := xs ! a, a := xs ! b, a := xs ! a, b := xs ! b] ! k = xs ! k"
    by (cases "k = a"; cases "k = b") simp_all
qed

lemma moveTile_roundtrip:
  assumes cur: "getCurrentWindow driver = Some w"
    and mem: "w \<in> set (visibles_in (wcontext (heap e w)) e)"
    and dist: "distinct (windows e)"
  shows "moveTile driver (- S) (moveTile driver S e) = e"
proof -
  define c where "c = wcontext (heap e w)"
  define xs where "xs = windows e"
  define vs where "vs = visibles_in c e"
  define n where "n = int (length vs)"
  define i where "i = indexOf vs w"
  define j where "j = (i + S) mod n"
  note fwd = moveTile_unfold [OF cur mem, of S, unfolded Let_def, folded c_def,
      folded vs_def, folded n_def i_def, folded j_def xs_def]
  from mem have memv: "w \<in> set vs" by (simp add: vs_def c_def)
  then have n: "0 < n" by (cases vs) (auto simp: n_def)
  from memv have i0: "0 \<le> i" using indexOf_neg_iff [of vs w] by (simp add: i_def)
  have iN: "i < n" using indexOf_less_length [of vs w] by (simp add: i_def n_def)
  show ?thesis
  proof (cases "S = 0 \<or> length vs < 2 \<or> i = j")
    case True
    then have same: "moveTile driver S e = e" by (simp add: fwd)
    note bwd = moveTile_unfold [OF cur mem, of "- S", unfolded Let_def, folded c_def,
      folded vs_def, folded n_def i_def]
    from True consider "S = 0" | "length vs < 2" | "i = j" by blast
    then have "moveTile driver (- S) e = e"
    proof cases
      case 1
      then show ?thesis by (simp add: moveTile_def)
    next
      case 2
      then show ?thesis by (simp add: bwd)
    next
      case 3
      then have "(i + S) mod n = i" unfolding j_def by (rule sym)
      with i0 iN have "(i - S) mod n = i" by (rule mod_fixed_back)
      then show ?thesis by (simp add: bwd)
    qed
    with same show ?thesis by simp
  next
    case False
    then have S: "S \<noteq> 0" and len: "\<not> length vs < 2" and ij: "i \<noteq> j" by simp_all
    define d where "d = vs ! nat j"
    define a where "a = nat (indexOf xs w)"
    define b where "b = nat (indexOf xs d)"
    define f where "f = (\<lambda>v. if v = w then d else if v = d then w else v)"
    from n have j: "0 \<le> j" "j < n" by (simp_all add: j_def)
    then have jlen: "nat j < length vs" by (simp add: n_def)
    then have dmem: "d \<in> set vs" by (simp add: d_def)
    have sub: "set vs \<subseteq> set xs" by (auto simp: vs_def xs_def visibles_in_def)
    with memv dmem have wl: "w \<in> set xs" and dl: "d \<in> set xs" by auto
    have a: "a < length xs" "xs ! a = w"
      using wl indexOf_neg_iff [of xs w] indexOf_less_length [of xs w]
      by (auto simp: a_def indexOf_nth)
    have b: "b < length xs" "xs ! b = d"
      using dl indexOf_neg_iff [of xs d] indexOf_less_length [of xs d]
      by (auto simp: b_def indexOf_nth)
    have dvs: "distinct vs" using dist by (simp add: vs_def visibles_in_def)
    have vi: "vs ! nat i = w" using memv by (simp add: i_def indexOf_nth)
    have ilen: "nat i < length vs" using i0 iN by (simp add: n_def)
    have wd: "w \<noteq> d"
    proof
      assume "w = d"
      with vi have "vs ! nat i = vs ! nat j" by (simp add: d_def)
      with dvs ilen jlen have "nat i = nat j" by (simp add: nth_eq_iff_index_eq)
      with i0 j ij show False by simp
    qed
    have ff: "f (f v) = v" for v by (simp add: f_def)
    have injf: "inj f" by (rule inj_on_inverseI [of _ f]) (simp add: ff)
    have fw: "f w = d" and fd: "f d = w" using wd by (simp_all add: f_def)
    define e1 where "e1 = moveTile driver S e"
    have e1: "e1 = e\<lparr>windows := xs[b := w, a := d]\<rparr>"
      using False by (simp add: e1_def fwd d_def a_def b_def)
    have xs1: "xs[b := w, a := d] = map f xs"
      using swap_as_map [of xs a b] dist a b by (simp add: xs_def f_def)
    have vis: "visible (heap e (f v)) c = visible (heap e v) c" for v
      using memv dmem by (auto simp: f_def vs_def visibles_in_def)
    have "visibles_in c e1 = filter (\<lambda>v. visible (heap e v) c) (map f xs)"
      by (simp add: e1 xs1 visibles_in_def)
    also have "\<dots> = map f (filter (\<lambda>v. visible (heap e v) c) xs)"
      by (simp add: filter_map o_def vis)
    also have "\<dots> = map f vs"
      by (simp add: vs_def visibles_in_def xs_def)
    finally have vs1: "visibles_in c e1 = map f vs" .
    have c1: "wcontext (heap e1 w) = c" by (simp add: e1 c_def)
    have mem1: "w \<in> set (visibles_in (wcontext (heap e1 w)) e1)"
      unfolding c1 vs1 using dmem fd by (metis image_eqI set_map)
    have idj: "indexOf vs d = j"
    proof -
      from dvs jlen have "d \<notin> set (take (nat j) vs)"
        by (auto simp: d_def in_set_conv_nth nth_eq_iff_index_eq)
      with jlen have "indexOf vs d = int (nat j)" by (intro indexOf_unique) (simp_all add: d_def)
      with j show ?thesis by simp
    qed
    have i1: "indexOf (map f vs) w = j"
      using indexOf_map_inj [OF injf, of vs d] by (simp add: fd idj)
    have j1: "(j + - S) mod n = i"
      using mod_step_back [OF i0 iN, of S] by (simp add: j_def)
    have d1: "map f vs ! nat i = d" using ilen by (simp add: vi fw)
    have ia: "nat (indexOf (map f xs) d) = a"
      using indexOf_map_inj [OF injf, of xs w] by (simp add: fw a_def)
    have ib: "nat (indexOf (map f xs) w) = b"
      using indexOf_map_inj [OF injf, of xs d] by (simp add: fd b_def)
    have w1: "windows e1 = map f xs" by (simp add: e1 xs1)
    have "moveTile driver (- S) e1 = e1\<lparr>windows := (map f xs)[a := w, b := d]\<rparr>"
      using moveTile_unfold [OF cur mem1, of "- S"] S len ij
      unfolding Let_def c1 vs1 w1 length_map n_def [symmetric] i1 j1 d1 ia ib
      by auto
    also have "\<dots> = e\<lparr>windows := xs[b := w, a := d, a := w, b := d]\<rparr>"
      by (simp add: e1 xs1 [symmetric])
    also have "xs[b := w, a := d, a := w, b := d] = xs"
      using update_back [of a xs b] a b by simp
    finally show ?thesis by (simp add: e1_def xs_def)
  qed
qed

text \<open>
  Claim C6 fails on the code when the current window is not among the visible windows
  of the list. Window 8 is ignored by \<open>manageClient\<close>, so the list is \<open>[2, 3]\<close>; with 8
  as the driver's current window, \<open>visibles.indexOf\<close> gives \<open>-1\<close>, which \<open>moveTile\<close>
  does not test: \<open>moveTile 1\<close> overwrites window 2 with window 8, and \<open>moveTile (- 1)\<close>
  then exchanges 8 and 3. The list \<open>[2, 3]\<close> has become \<open>[3, 8]\<close>. In the same situation
  \<open>moveFocus\<close> tests the index and focuses the first visible window.
\<close>

theorem moveTile_unmanaged_current_window:
  "windows (run_calls [ManageClient 2, ManageClient 3, ManageClient 8] (example_engine [])) = [2, 3]
   \<and> windows (moveTile (example_driver (Some 8)) 1 (example_engine [2, 3])) = [8, 3]
   \<and> windows (moveTile (example_driver (Some 8)) (- 1)
        (moveTile (example_driver (Some 8)) 1 (example_engine [2, 3]))) = [3, 8]
   \<and> trace (moveFocus (example_driver (Some 8)) 1 (example_engine [2, 3])) = [SetCurrentWindow 2]"
  by (simp add: moveTile_def moveFocus_def emit_def Let_def js_rem_def array_set_def
      example_defs manageClient_def set_window_def)

end
